theory Spec2Isabelle
  imports Complex_Main "HOL-Library.AList"
begin

section \<open>Data model\<close>

text \<open>
  The acquisition software handles NumPy arrays of floating-point samples and a
  parameter object \<^verbatim>\<open>AcqParams\<close>. A finite floating-point number is the real
  number it denotes. The arithmetic of the coordinator and of the crop engine rounds
  every result to binary64 (section "Binary64 arithmetic"). The dissimilarity detector
  is modelled in exact arithmetic with the undefined quotient (NaN) made explicit; the
  properties proved of it do not depend on rounding. Python's unbounded integers are
  \<^typ>\<open>int\<close>.
\<close>

datatype driver_exn = SpcmTimeout | SpcmDriverError

datatype error =
    IndexError
  | TypeError
  | AttributeError
  | JSONDecodeError
  | SerdeError
  | NoTriggerCrossings
  | OutdatedVersion
  | ChannelNotFound
  | NotAnADCard
  | ZeroDivisionError
  | Driver driver_exn
  | ThreadException

text \<open>
  \<^verbatim>\<open>NoTriggerCrossings\<close>, \<^verbatim>\<open>OutdatedVersion\<close> and \<^verbatim>\<open>ChannelNotFound\<close> are the three
  \<^verbatim>\<open>ValueError\<close>s the package raises itself, told apart by their message;
  \<^verbatim>\<open>NotAnADCard\<close> is the \<^verbatim>\<open>SpcmException\<close> of the card set-up, \<^verbatim>\<open>Driver x\<close> an
  exception \<open>x\<close> raised by the driver, and \<^verbatim>\<open>ThreadException\<close> the \<^verbatim>\<open>RuntimeError\<close> raised after
  the worker threads have been joined.
\<close>

datatype FileFormat = CSV | PQT

datatype InputImpedance = LOW_IMPEDANCE | HIGH_IMPEDANCE

datatype SensorType = AIRBORNE | STRUCTURE | SIGNAL_CHANNEL

datatype SensorCoupling = AC | DC

record SensorParams =
  sensor_type :: SensorType
  sensor_placement :: string
  sensor_card :: int
  sensor_channel :: int
  sensor_input_impedance :: InputImpedance
  sensor_amp_level :: real
  sensor_coupling :: SensorCoupling

record AcqParams =
  card_identifiers :: "string list"
  sync_identifier :: string
  sensors_card_0 :: "SensorParams list"
  sensors_card_1 :: "SensorParams list"
  card_timeout :: real
  trigger_level :: real
  trigger_channel_no :: int
  emission_on_channel_no :: int
  target_file_name :: string
  sample_rate :: real
  data_format :: FileFormat
  acquisition_duration :: real
  post_acquisition_duration :: real
  pre_acquisition_duration :: real
  sensitivity_threshold :: real
  cur_version :: int
  with_crop :: bool
  with_plot :: bool
  with_channel_check :: bool

text \<open>
  A two-dimensional NumPy array: its shape and its rows. The shape is stored because
  an array without rows still has a second dimension. The coordinator builds the
  waveform matrix as \<^verbatim>\<open>np.array(list_of_data).T\<close>, so axis 0 (the rows) is the
  sample axis and axis 1 (the columns) is the channel axis.
\<close>

record ndarray =
  shape0 :: nat
  shape1 :: nat
  rows :: "real list list"

definition wf_ndarray :: "ndarray \<Rightarrow> bool" where
  "wf_ndarray a =
     (length (rows a) = shape0 a \<and> list_all (\<lambda>r. length r = shape1 a) (rows a))"

definition mk_ndarray :: "nat \<Rightarrow> real list list \<Rightarrow> ndarray" where
  "mk_ndarray ncols rs = \<lparr>shape0 = length rs, shape1 = ncols, rows = rs\<rparr>"

section \<open>NumPy and Python primitives\<close>

text \<open>
  Integer indexing of an axis of length \<open>n\<close>: indices \<open>-n .. -1\<close> count from the end,
  anything outside \<open>-n .. n-1\<close> raises \<^verbatim>\<open>IndexError\<close> (here: \<open>None\<close>).
\<close>

definition norm_index :: "nat \<Rightarrow> int \<Rightarrow> nat option" where
  "norm_index n i =
     (if 0 \<le> i \<and> i < int n then Some (nat i)
      else if - int n \<le> i \<and> i < 0 then Some (nat (int n + i))
      else None)"

text \<open>\<^verbatim>\<open>data[:, k]\<close> for an index already normalised.\<close>

definition column :: "ndarray \<Rightarrow> nat \<Rightarrow> real list" where
  "column a k = map (\<lambda>r. r ! k) (rows a)"

text \<open>
  Slicing \<^verbatim>\<open>xs[start:stop]\<close>: a negative bound counts from the end, and both bounds
  are clipped to the length; an empty range gives an empty result.
\<close>

definition slice_index :: "nat \<Rightarrow> int \<Rightarrow> nat" where
  "slice_index n i = (if i < 0 then nat (max 0 (int n + i)) else min n (nat i))"

definition py_slice :: "'a list \<Rightarrow> int \<Rightarrow> int \<Rightarrow> 'a list" where
  "py_slice xs start stop =
     (let s = slice_index (length xs) start; e = slice_index (length xs) stop
      in take (e - s) (drop s xs))"

text \<open>\<^verbatim>\<open>data[start:stop, :]\<close>: the slice is taken along axis 0.\<close>

definition slice_rows :: "ndarray \<Rightarrow> int \<Rightarrow> int \<Rightarrow> ndarray" where
  "slice_rows a start stop = mk_ndarray (shape1 a) (py_slice (rows a) start stop)"

text \<open>\<^verbatim>\<open>int(x)\<close> of a float truncates towards zero.\<close>

definition py_int :: "real \<Rightarrow> int" where
  "py_int x = (if 0 \<le> x then \<lfloor>x\<rfloor> else \<lceil>x\<rceil>)"

section \<open>Binary64 arithmetic\<close>

text \<open>
  Python's \<^verbatim>\<open>float\<close> is IEEE 754 binary64: 53 significant bits, and every operation
  returns the exact result rounded to the nearest representable number, ties going to
  the even significand. For a real \<open>x \<noteq> 0\<close> whose magnitude lies between \<open>2 powi e\<close> and
  \<open>2 powi (e + 1)\<close> the representable numbers around \<open>x\<close> are the multiples of
  \<open>2 powi (e - 52)\<close>. Overflow and subnormal numbers are outside the model: it is
  binary64 for magnitudes between \<open>2 powi (- 1022)\<close> and \<open>2 powi 1024\<close>.
\<close>

definition round_half_even :: "real \<Rightarrow> int" where
  "round_half_even q =
     (let f = \<lfloor>q\<rfloor>
      in if q - of_int f < 1 / 2 then f
         else if 1 / 2 < q - of_int f then f + 1
         else if even f then f else f + 1)"

definition b64_exponent :: "real \<Rightarrow> int" where
  "b64_exponent x = \<lfloor>log 2 \<bar>x\<bar>\<rfloor>"

definition b64_round :: "real \<Rightarrow> real" where
  "b64_round x =
     (if x = 0 then 0
      else (let u = 2 powi (b64_exponent x - 52)
            in of_int (round_half_even (x / u)) * u))"

text \<open>
  The float operations \<^verbatim>\<open>+\<close>, \<^verbatim>\<open>-\<close>, \<^verbatim>\<open>*\<close> and \<^verbatim>\<open>/\<close> (the latter for a divisor that is
  not zero; the callers model \<^verbatim>\<open>ZeroDivisionError\<close>), and the conversion of an integer
  that takes part in a float operation.
\<close>

definition fadd :: "real \<Rightarrow> real \<Rightarrow> real" where
  "fadd x y = b64_round (x + y)"

definition fsub :: "real \<Rightarrow> real \<Rightarrow> real" where
  "fsub x y = b64_round (x - y)"

definition fmul :: "real \<Rightarrow> real \<Rightarrow> real" where
  "fmul x y = b64_round (x * y)"

definition fdiv :: "real \<Rightarrow> real \<Rightarrow> real" where
  "fdiv x y = b64_round (x / y)"

definition float_of_int :: "int \<Rightarrow> real" where
  "float_of_int n = b64_round (of_int n)"

section \<open>Crop engine: \<^verbatim>\<open>crop_data\<close>\<close>

text \<open>
  \<^verbatim>\<open>np.where(np.diff((channel_data > level).astype(int)) != 0)[0]\<close>: the indices \<open>i\<close>
  at which the thresholded sequence differs between positions \<open>i\<close> and \<open>i + 1\<close>.
\<close>

definition crossings_of :: "real list \<Rightarrow> real \<Rightarrow> int list" where
  "crossings_of channel_data level =
     (let above = map (\<lambda>x. x > level) channel_data
      in map int (filter (\<lambda>i. above ! i \<noteq> above ! (i + 1)) [0..<length above - 1]))"

text \<open>
  The two slice bounds of \<^verbatim>\<open>crop_data\<close>, computed as the source computes them. Note
  that the upper bound is compared with and clipped to \<^verbatim>\<open>data.shape[1]\<close>.
\<close>

definition crop_indices :: "ndarray \<Rightarrow> AcqParams \<Rightarrow> error + (int \<times> int)" where
  "crop_indices data p =
     (case norm_index (shape1 data) (trigger_channel_no p) of
        None \<Rightarrow> Inl IndexError
      | Some k \<Rightarrow>
          (let crossings = crossings_of (column data k) (trigger_level p) in
           if crossings = [] then Inl NoTriggerCrossings
           else
             (let first_cross = hd crossings;
                  last_cross = last crossings;
                  pre_trigger_samples =
                    py_int (fmul (pre_acquisition_duration p) (sample_rate p));
                  post_trigger_samples =
                    py_int (fmul (post_acquisition_duration p) (sample_rate p));
                  start_index =
                    (if first_cross > pre_trigger_samples
                     then first_cross - pre_trigger_samples else 0);
                  end_index =
                    (if last_cross + post_trigger_samples < int (shape1 data)
                     then last_cross + post_trigger_samples else int (shape1 data))
              in Inr (start_index, end_index))))"

definition crop_data :: "ndarray \<Rightarrow> AcqParams \<Rightarrow> error + ndarray" where
  "crop_data data p =
     (if \<not> with_crop p then Inr data
      else
        (case crop_indices data p of
           Inl e \<Rightarrow> Inl e
         | Inr (start_index, end_index) \<Rightarrow> Inr (slice_rows data start_index end_index)))"

section \<open>Dissimilarity detector: \<^verbatim>\<open>detect_dissimilar_channels\<close>\<close>

text \<open>
  The detector divides by standard deviations and vector norms that can be zero. In
  floating point such a quotient is NaN, and NaN then propagates through every
  arithmetic operation and makes every comparison false; in HOL \<open>x / 0 = 0\<close>. The
  intermediate values are therefore of type \<open>real option\<close>, with \<open>None\<close> for NaN. In
  exact arithmetic every denominator of this algorithm vanishes only together with its
  numerator (a zero standard deviation means that all deviations are zero, a zero norm
  that the vector is zero, and an empty mean is \<open>0 / 0\<close>), so infinities do not arise.
\<close>

type_synonym fl = "real option"

definition fl_lift2 :: "(real \<Rightarrow> real \<Rightarrow> real) \<Rightarrow> fl \<Rightarrow> fl \<Rightarrow> fl" where
  "fl_lift2 f a b =
     (case a of None \<Rightarrow> None | Some x \<Rightarrow> (case b of None \<Rightarrow> None | Some y \<Rightarrow> Some (f x y)))"

definition fl_div :: "fl \<Rightarrow> fl \<Rightarrow> fl" where
  "fl_div a b =
     (case a of None \<Rightarrow> None
      | Some x \<Rightarrow> (case b of None \<Rightarrow> None | Some y \<Rightarrow> if y = 0 then None else Some (x / y)))"

definition fl_sqrt :: "fl \<Rightarrow> fl" where
  "fl_sqrt a = map_option sqrt a"

definition fl_sum :: "fl list \<Rightarrow> fl" where
  "fl_sum xs = (if list_all (\<lambda>x. x \<noteq> None) xs then Some (sum_list (map the xs)) else None)"

text \<open>\<^verbatim>\<open>np.mean\<close> of a one-dimensional array.\<close>

definition fl_mean :: "fl list \<Rightarrow> fl" where
  "fl_mean xs = fl_div (fl_sum xs) (Some (real (length xs)))"

text \<open>
  \<^verbatim>\<open>scipy.stats.zscore\<close> of a one-dimensional array (\<^verbatim>\<open>ddof = 0\<close>): subtract the mean
  and divide by the population standard deviation.
\<close>

definition zscore :: "fl list \<Rightarrow> fl list" where
  "zscore xs =
     (let mn = fl_mean xs;
          dev = map (\<lambda>x. fl_lift2 (-) x mn) xs;
          std = fl_sqrt (fl_mean (map (\<lambda>d. fl_lift2 (*) d d) dev))
      in map (\<lambda>d. fl_div d std) dev)"

text \<open>
  The cosine distance of \<^verbatim>\<open>scipy.spatial.distance.pdist\<close>:
  \<open>1 - u \<cdot> v / (\<parallel>u\<parallel> \<parallel>v\<parallel>)\<close>. (SciPy clips the quotient to \<open>[-1, 1]\<close> against rounding; in
  exact arithmetic it lies there by the Cauchy-Schwarz inequality.)
\<close>

definition fl_dot :: "fl list \<Rightarrow> fl list \<Rightarrow> fl" where
  "fl_dot u v = fl_sum (map (\<lambda>(x, y). fl_lift2 (*) x y) (zip u v))"

definition cosine :: "fl list \<Rightarrow> fl list \<Rightarrow> fl" where
  "cosine u v =
     fl_lift2 (-) (Some 1)
       (fl_div (fl_dot u v) (fl_lift2 (*) (fl_sqrt (fl_dot u u)) (fl_sqrt (fl_dot v v))))"

text \<open>
  \<^verbatim>\<open>squareform(pdist(X, metric="cosine"))\<close>: the symmetric matrix of pairwise distances
  of the rows of \<open>X\<close>, with an exact zero diagonal; for an empty condensed vector (fewer
  than two rows) \<^verbatim>\<open>squareform\<close> returns the \<open>1 \<times> 1\<close> zero matrix.
\<close>

definition squareform_pdist :: "fl list list \<Rightarrow> fl list list" where
  "squareform_pdist X =
     (if length X = 0 then [[Some 0]]
      else map (\<lambda>i. map (\<lambda>j. if i = j then Some 0 else cosine (X ! i) (X ! j))
                  [0..<length X]) [0..<length X])"

text \<open>\<^verbatim>\<open>data.T\<close> as the list of its rows: one waveform per channel.\<close>

definition transpose_rows :: "ndarray \<Rightarrow> real list list" where
  "transpose_rows a = map (\<lambda>j. column a j) [0..<shape1 a]"

text \<open>\<^verbatim>\<open>outliers[k] = -1\<close>, with NumPy's index rules.\<close>

definition set_item :: "int list \<Rightarrow> int \<Rightarrow> int \<Rightarrow> error + int list" where
  "set_item xs k v =
     (case norm_index (length xs) k of None \<Rightarrow> Inl IndexError | Some i \<Rightarrow> Inr (xs[i := v]))"

text \<open>\<^verbatim>\<open>(np.abs(zscores) > threshold).astype(int)\<close>: a comparison with NaN is false.\<close>

definition outlier_flag :: "real \<Rightarrow> fl \<Rightarrow> int" where
  "outlier_flag threshold z =
     (case z of None \<Rightarrow> 0 | Some x \<Rightarrow> if \<bar>x\<bar> > threshold then 1 else 0)"

definition channel_zscores :: "ndarray \<Rightarrow> fl list" where
  "channel_zscores data =
     (let data_norm = map (\<lambda>ch. zscore (map Some ch)) (transpose_rows data);
          dists = squareform_pdist data_norm;
          avg_dists = map fl_mean dists
      in zscore avg_dists)"

definition detect_dissimilar_channels :: "ndarray \<Rightarrow> AcqParams \<Rightarrow> error + int list" where
  "detect_dissimilar_channels data p =
     (let zscores = channel_zscores data;
          outliers = map (outlier_flag (sensitivity_threshold p)) zscores
      in case set_item outliers (trigger_channel_no p) (- 1) of
           Inl e \<Rightarrow> Inl e
         | Inr outliers' \<Rightarrow> set_item outliers' (emission_on_channel_no p) (- 1))"

section \<open>Coordinator: card set-up\<close>

text \<open>
  \<^verbatim>\<open>MAX_SAMPLE_NUMBER = 64 * units.MS\<close>; the coordinator compares with
  \<^verbatim>\<open>MAX_SAMPLE_NUMBER.to_base_units().magnitude\<close>, that is 64 million samples.
\<close>

definition MAX_SAMPLE_NUMBER :: int where
  "MAX_SAMPLE_NUMBER = 64 * 1000000"

datatype log_level = INFO | WARNING | ERROR

datatype message =
    TimeoutAdjusted real real
  | SamplesExceedMaximum int
  | AcquisitionAdjusted real real
  | CardSamples nat int real real

text \<open>
  \<^verbatim>\<open>num_samples = int(int(pre + acq + post) * sample_rate * 1e6 * units.S)\<close>: the
  sample rate of \<^verbatim>\<open>AcqParams\<close> is in MHz, and \<^verbatim>\<open>units.S\<close> is the dimensionless unit
  "sample".
\<close>

definition num_samples_requested :: "AcqParams \<Rightarrow> int" where
  "num_samples_requested p =
     py_int
       (fmul
          (fmul
             (float_of_int
                (py_int (fadd (fadd (pre_acquisition_duration p) (acquisition_duration p))
                           (post_acquisition_duration p))))
             (sample_rate p))
          1000000)"

text \<open>What the set-up of one card programs into the card and its transfer.\<close>

record card_plan =
  plan_timeout :: "real option"
  plan_num_samples :: int
  plan_acq_duration :: real
  plan_post_acq_duration :: real
  plan_logged :: "(log_level \<times> message) list"

text \<open>
  The body of the set-up loop of \<^verbatim>\<open>run_acquisition\<close> for card \<open>i\<close>; \<open>is_ai\<close> says
  whether the card reports the function type \<^verbatim>\<open>SPCM_TYPE_AI\<close>. The driver calls that
  program trigger, clock and transfer are taken to return.
\<close>

definition card_setup :: "nat \<Rightarrow> bool \<Rightarrow> AcqParams \<Rightarrow> error + card_plan" where
  "card_setup i is_ai p =
     (if \<not> is_ai then Inl NotAnADCard
      else
        (let acq_total_duration =
               fadd (fadd (pre_acquisition_duration p) (acquisition_duration p))
                 (post_acquisition_duration p);
             timeout =
               (if card_timeout p > 0
                then (if acq_total_duration \<ge> card_timeout p
                      then Some (fadd acq_total_duration 5) else Some (card_timeout p))
                else None);
             logged1 =
               (if card_timeout p > 0 \<and> acq_total_duration \<ge> card_timeout p
                then [(WARNING, TimeoutAdjusted (card_timeout p) (fadd acq_total_duration 5))]
                else []);
             num_samples = num_samples_requested p
         in if num_samples > MAX_SAMPLE_NUMBER then
              (if fmul (sample_rate p) 1000000 = 0 then Inl ZeroDivisionError
               else
                 (let acq_duration =
                        fdiv (real_of_int MAX_SAMPLE_NUMBER) (fmul (sample_rate p) 1000000);
                      post_acq_duration = fsub acq_duration (pre_acquisition_duration p)
                  in Inr \<lparr>plan_timeout = timeout,
                           plan_num_samples = MAX_SAMPLE_NUMBER,
                           plan_acq_duration = acq_duration,
                           plan_post_acq_duration = post_acq_duration,
                           plan_logged = logged1 @
                             [(WARNING, SamplesExceedMaximum num_samples),
                              (WARNING, AcquisitionAdjusted acq_duration post_acq_duration),
                              (INFO, CardSamples i MAX_SAMPLE_NUMBER acq_duration
                                       post_acq_duration)]\<rparr>))
            else
              (let acq_duration =
                     fadd (fadd (pre_acquisition_duration p) (acquisition_duration p))
                       (post_acquisition_duration p);
                   post_acq_duration =
                     fadd (acquisition_duration p) (post_acquisition_duration p)
               in Inr \<lparr>plan_timeout = timeout,
                        plan_num_samples = num_samples,
                        plan_acq_duration = acq_duration,
                        plan_post_acq_duration = post_acq_duration,
                        plan_logged = logged1 @
                          [(INFO, CardSamples i num_samples acq_duration
                                    post_acq_duration)]\<rparr>)))"

text \<open>
  The channel configuration loop: every channel the stack reports, identified by the
  serial number of its card and its index, needs an entry among the configured sensors.
\<close>

definition configure_channels :: "(int \<times> int) list \<Rightarrow> AcqParams \<Rightarrow> error + unit" where
  "configure_channels chans p =
     (if list_all
           (\<lambda>(cur_channel_card, cur_channel_no).
              list_ex (\<lambda>entry. sensor_card entry = cur_channel_card
                                \<and> sensor_channel entry = cur_channel_no)
                (sensors_card_0 p @ sensors_card_1 p))
           chans
      then Inr () else Inl ChannelNotFound)"

section \<open>Acquisition worker: \<^verbatim>\<open>CardThread.run\<close>\<close>

text \<open>
  The worker waits for the DMA transfer and reads the buffer. \<open>outcome\<close> is the
  exception the wait or the read raises, if any; \<open>has_queue\<close> says whether the thread
  was given an exception queue. The result says what the thread did with the fault:
  \<^verbatim>\<open>self.ex_queue.put(e); return\<close> or \<^verbatim>\<open>raise e\<close>.
\<close>

datatype run_result = Completed | Reported driver_exn | Propagated driver_exn

definition CardThread_run :: "bool \<Rightarrow> driver_exn option \<Rightarrow> run_result" where
  "CardThread_run has_queue outcome =
     (case outcome of
        None \<Rightarrow> Completed
      | Some e \<Rightarrow> if has_queue then Reported e else Propagated e)"

section \<open>Coordinator: \<^verbatim>\<open>run_acquisition\<close> as a transition system\<close>

text \<open>
  The hardware and its driver, as far as the run depends on them: the channels and
  cards of the stack, whether \<^verbatim>\<open>sync_enable\<close> and \<^verbatim>\<open>start\<close> raise, what the wait of each
  card's worker raises, the buffer of each card (one row per channel) and the
  conversion of raw counts to volts.
\<close>

record hardware =
  hw_channels :: "(int \<times> int) list"
  hw_cards :: "bool list"
  hw_sync_enable :: "driver_exn option"
  hw_start :: "driver_exn option"
  hw_wait :: "nat \<Rightarrow> driver_exn option"
  hw_buffers :: "real list list list"
  hw_convert :: "real list \<Rightarrow> real list"

datatype thread_state = NotStarted | Running | Finished

text \<open>The coordinator's position in \<^verbatim>\<open>run_acquisition\<close>.\<close>

datatype pc =
    AtConfigure
  | AtSetup nat
  | AtSyncEnable
  | AtStart
  | AtLaunch nat
  | AtJoin nat
  | AtCheckQueue
  | AtAssemble
  | AtPostProcess
  | Returned
  | Raised error

datatype event =
    SyncEnableCalled
  | SyncEnableReturned
  | StartIssued
  | StartReturned
  | Launched nat
  | QueuePut nat driver_exn
  | Uncaught nat driver_exn
  | WorkerReturned nat
  | Joined nat
  | QueueDrained
  | ErrorRaised error
  | Assembled
  | Saved

record run_state =
  pc :: pc
  threads :: "thread_state list"
  exc_queue :: "driver_exn list"
  uncaught :: "(nat \<times> driver_exn) list"
  gated_transfers :: "card_plan list"
  data_arr :: "ndarray option"
  dissimilar_channels :: "int list option"
  trace :: "event list"

definition init_state :: "hardware \<Rightarrow> run_state" where
  "init_state hw =
     \<lparr>pc = AtConfigure, threads = replicate (length (hw_cards hw)) NotStarted,
      exc_queue = [], uncaught = [], gated_transfers = [], data_arr = None,
      dissimilar_channels = None, trace = []\<rparr>"

text \<open>
  Assembly: every channel row of every buffer is converted and appended to
  \<^verbatim>\<open>list_of_data\<close>; the waveform matrix is \<^verbatim>\<open>np.array(list_of_data).T\<close>.
\<close>

definition assemble :: "hardware \<Rightarrow> ndarray" where
  "assemble hw =
     (let list_of_data = concat (map (map (hw_convert hw)) (hw_buffers hw));
          n_samples = (case list_of_data of [] \<Rightarrow> 0 | ch # _ \<Rightarrow> length ch)
      in \<lparr>shape0 = n_samples, shape1 = length list_of_data,
          rows = map (\<lambda>i. map (\<lambda>ch. ch ! i) list_of_data) [0..<n_samples]\<rparr>)"

definition raise_error :: "error \<Rightarrow> run_state \<Rightarrow> run_state" where
  "raise_error e s = s\<lparr>pc := Raised e, trace := trace s @ [ErrorRaised e]\<rparr>"

text \<open>
  One step of the coordinator thread. At \<open>AtJoin i\<close> the coordinator is blocked in
  \<^verbatim>\<open>t.join()\<close> until thread \<open>i\<close> has finished; a blocked or terminated coordinator
  does not move. Saving and plotting belong to other modules and are taken to return.
\<close>

definition coordinator_step :: "hardware \<Rightarrow> AcqParams \<Rightarrow> run_state \<Rightarrow> run_state" where
  "coordinator_step hw p s =
     (case pc s of
        AtConfigure \<Rightarrow>
          (case configure_channels (hw_channels hw) p of
             Inl e \<Rightarrow> raise_error e s
           | Inr _ \<Rightarrow> s\<lparr>pc := AtSetup 0\<rparr>)
      | AtSetup i \<Rightarrow>
          (if i < length (hw_cards hw) then
             (case card_setup i (hw_cards hw ! i) p of
                Inl e \<Rightarrow> raise_error e s
              | Inr plan \<Rightarrow>
                  s\<lparr>pc := AtSetup (i + 1), gated_transfers := gated_transfers s @ [plan]\<rparr>)
           else s\<lparr>pc := AtSyncEnable\<rparr>)
      | AtSyncEnable \<Rightarrow>
          (case hw_sync_enable hw of
             Some e \<Rightarrow> raise_error (Driver e) (s\<lparr>trace := trace s @ [SyncEnableCalled]\<rparr>)
           | None \<Rightarrow>
               s\<lparr>pc := AtStart, trace := trace s @ [SyncEnableCalled, SyncEnableReturned]\<rparr>)
      | AtStart \<Rightarrow>
          (case hw_start hw of
             Some e \<Rightarrow> raise_error (Driver e) (s\<lparr>trace := trace s @ [StartIssued]\<rparr>)
           | None \<Rightarrow> s\<lparr>pc := AtLaunch 0, trace := trace s @ [StartIssued, StartReturned]\<rparr>)
      | AtLaunch i \<Rightarrow>
          (if i < length (hw_cards hw) then
             s\<lparr>pc := AtLaunch (i + 1), threads := (threads s)[i := Running],
               trace := trace s @ [Launched i]\<rparr>
           else s\<lparr>pc := AtJoin 0\<rparr>)
      | AtJoin i \<Rightarrow>
          (if i < length (hw_cards hw) then
             (if threads s ! i = Finished
              then s\<lparr>pc := AtJoin (i + 1), trace := trace s @ [Joined i]\<rparr>
              else s)
           else s\<lparr>pc := AtCheckQueue\<rparr>)
      | AtCheckQueue \<Rightarrow>
          (if exc_queue s \<noteq> [] then
             raise_error ThreadException
               (s\<lparr>exc_queue := [], trace := trace s @ [QueueDrained]\<rparr>)
           else s\<lparr>pc := AtAssemble\<rparr>)
      | AtAssemble \<Rightarrow>
          s\<lparr>pc := AtPostProcess, data_arr := Some (assemble hw),
            trace := trace s @ [Assembled]\<rparr>
      | AtPostProcess \<Rightarrow>
          (case data_arr s of
             None \<Rightarrow> s
           | Some d \<Rightarrow>
               (case crop_data d p of
                  Inl e \<Rightarrow> raise_error e s
                | Inr d' \<Rightarrow>
                    (if with_channel_check p then
                       (case detect_dissimilar_channels d' p of
                          Inl e \<Rightarrow> raise_error e (s\<lparr>data_arr := Some d'\<rparr>)
                        | Inr flags \<Rightarrow>
                            s\<lparr>pc := Returned, data_arr := Some d',
                              dissimilar_channels := Some flags,
                              trace := trace s @ [Saved]\<rparr>)
                     else s\<lparr>pc := Returned, data_arr := Some d',
                            trace := trace s @ [Saved]\<rparr>)))
      | Returned \<Rightarrow> s
      | Raised e \<Rightarrow> s)"

text \<open>
  One step of the worker thread of card \<open>i\<close>: the whole of \<^verbatim>\<open>CardThread.run\<close>, whose only
  effect on shared state is the \<^verbatim>\<open>put\<close> on the queue. The coordinator always passes
  \<^verbatim>\<open>ex_queue=exc_queue\<close>. A thread that is not running does not move.
\<close>

definition worker_step :: "hardware \<Rightarrow> nat \<Rightarrow> run_state \<Rightarrow> run_state" where
  "worker_step hw i s =
     (if i < length (hw_cards hw) \<and> i < length (threads s) \<and> threads s ! i = Running then
        (case CardThread_run True (hw_wait hw i) of
           Completed \<Rightarrow>
             s\<lparr>threads := (threads s)[i := Finished],
               trace := trace s @ [WorkerReturned i]\<rparr>
         | Reported e \<Rightarrow>
             s\<lparr>threads := (threads s)[i := Finished], exc_queue := exc_queue s @ [e],
               trace := trace s @ [QueuePut i e, WorkerReturned i]\<rparr>
         | Propagated e \<Rightarrow>
             s\<lparr>threads := (threads s)[i := Finished], uncaught := uncaught s @ [(i, e)],
               trace := trace s @ [Uncaught i e]\<rparr>)
      else s)"

datatype actor = Coordinator | Worker nat

definition step :: "hardware \<Rightarrow> AcqParams \<Rightarrow> actor \<Rightarrow> run_state \<Rightarrow> run_state" where
  "step hw p a s =
     (case a of Coordinator \<Rightarrow> coordinator_step hw p s | Worker i \<Rightarrow> worker_step hw i s)"

text \<open>
  A run is the initial state followed by the steps a scheduler picks; every
  interleaving of the coordinator and the workers is some schedule.
\<close>

definition exec :: "hardware \<Rightarrow> AcqParams \<Rightarrow> actor list \<Rightarrow> run_state \<Rightarrow> run_state" where
  "exec hw p sched s = fold (step hw p) sched s"

definition run_acquisition :: "hardware \<Rightarrow> AcqParams \<Rightarrow> actor list \<Rightarrow> run_state" where
  "run_acquisition hw p sched = exec hw p sched (init_state hw)"

text \<open>An actor is enabled when its step changes the state.\<close>

definition enabled :: "hardware \<Rightarrow> run_state \<Rightarrow> actor \<Rightarrow> bool" where
  "enabled hw s a =
     (case a of
        Coordinator \<Rightarrow>
          (case pc s of
             Returned \<Rightarrow> False
           | Raised e \<Rightarrow> False
           | AtJoin i \<Rightarrow> i < length (hw_cards hw) \<longrightarrow> threads s ! i = Finished
           | AtPostProcess \<Rightarrow> data_arr s \<noteq> None
           | _ \<Rightarrow> True)
      | Worker i \<Rightarrow> i < length (hw_cards hw) \<and> i < length (threads s) \<and> threads s ! i = Running)"

definition all_actors :: "hardware \<Rightarrow> actor list" where
  "all_actors hw = Coordinator # map Worker [0..<length (hw_cards hw)]"

definition terminated :: "hardware \<Rightarrow> run_state \<Rightarrow> bool" where
  "terminated hw s = (\<not> list_ex (enabled hw s) (all_actors hw))"

text \<open>\<open>precedes a b tr\<close>: every occurrence of \<open>b\<close> in the trace has an \<open>a\<close> before it.\<close>

fun precedes_from :: "bool \<Rightarrow> 'a \<Rightarrow> 'a \<Rightarrow> 'a list \<Rightarrow> bool" where
  "precedes_from seen a b [] = True"
| "precedes_from seen a b (x # xs) =
     ((x = b \<longrightarrow> seen) \<and> precedes_from (seen \<or> x = a) a b xs)"

definition precedes :: "'a \<Rightarrow> 'a \<Rightarrow> 'a list \<Rightarrow> bool" where
  "precedes a b tr = precedes_from False a b tr"

section \<open>Configuration: \<^verbatim>\<open>parse_args\<close>\<close>

text \<open>
  Python values as they occur in the parameter dictionary: what \<^verbatim>\<open>json.load\<close>
  produces, and the \<^verbatim>\<open>SensorParams\<close> objects. A dictionary is an association list in
  insertion order.
\<close>

text \<open>
  A Python float as \<^verbatim>\<open>json.load\<close> can produce it: besides the finite numbers, the
  literals \<^verbatim>\<open>Infinity\<close>, \<^verbatim>\<open>-Infinity\<close> and \<^verbatim>\<open>NaN\<close> are accepted.
\<close>

datatype pyfloat = Finite real | PosInf | NegInf | NaN

datatype pyval =
    PNone
  | PBool bool
  | PInt int
  | PFloat pyfloat
  | PStr string
  | PList "pyval list"
  | PDict "(string \<times> pyval) list"
  | PSensor SensorParams

text \<open>
  What \<^verbatim>\<open>--config\<close> leads to: no path or a path that is not a file, a file that
  \<^verbatim>\<open>json.load\<close> rejects, or the document it returns.
\<close>

datatype config_file = NoConfigFile | InvalidJson | JsonDocument pyval

definition default_sensor :: "int \<Rightarrow> int \<Rightarrow> SensorParams" where
  "default_sensor card_no channel_no =
     \<lparr>sensor_type = AIRBORNE, sensor_placement = ''top'', sensor_card = card_no,
      sensor_channel = channel_no, sensor_input_impedance = HIGH_IMPEDANCE,
      sensor_amp_level = 10, sensor_coupling = DC\<rparr>"

definition default_params :: "(string \<times> pyval) list" where
  "default_params =
     [(''data_format'', PStr ''PQT''),
      (''card_identifiers'', PList [PStr ''/dev/spcm0'', PStr ''/dev/spcm1'']),
      (''sync_identifier'', PStr ''sync0''),
      (''channel_amp_level'', PFloat (Finite 10)),
      (''card_timeout'', PFloat (Finite 25)),
      (''trigger_level'', PFloat (Finite 2)),
      (''trigger_channel_no'', PInt 0),
      (''emission_on_channel_no'', PInt 1),
      (''sample_rate'', PFloat (Finite 2)),
      (''sensors_card_0'', PList [PSensor (default_sensor 0 0), PSensor (default_sensor 0 1)]),
      (''sensors_card_1'', PList [PSensor (default_sensor 1 0), PSensor (default_sensor 1 1)]),
      (''acquisition_duration'', PFloat (Finite 20)),
      (''pre_acquisition_duration'', PFloat (Finite 1)),
      (''post_acquisition_duration'', PFloat (Finite 1)),
      (''target_file_name'', PStr ''data.pqt''),
      (''sensitivity_threshold'', PFloat (Finite (b64_round (12 / 10)))),
      (''with_crop'', PStr ''True''),
      (''with_plot'', PStr ''True''),
      (''with_channel_check'', PBool False),
      (''cur_version'', PInt 1)]"

text \<open>
  \<^verbatim>\<open>d[key]\<close> for a key of the literal dictionary above. The merge only overwrites
  keys that are present, so the lookup cannot fail (lemma \<open>merge_config_keys\<close>).
\<close>

definition dict_get :: "(string \<times> pyval) list \<Rightarrow> string \<Rightarrow> pyval" where
  "dict_get d key = (case map_of d key of Some v \<Rightarrow> v | None \<Rightarrow> PNone)"

text \<open>\<^verbatim>\<open>re.fullmatch(r"sensors_card_(\d+)", key)\<close>\<close>

definition is_sensors_key :: "string \<Rightarrow> bool" where
  "is_sensors_key key =
     (take 13 key = ''sensors_card_'' \<and> drop 13 key \<noteq> []
      \<and> list_all (\<lambda>c. c \<in> set ''0123456789'') (drop 13 key))"

text \<open>Iterating a value: a list, the characters of a string, the keys of a dictionary.\<close>

definition py_iter :: "pyval \<Rightarrow> error + pyval list" where
  "py_iter v =
     (case v of
        PList xs \<Rightarrow> Inr xs
      | PStr cs \<Rightarrow> Inr (map (\<lambda>c. PStr [c]) cs)
      | PDict kvs \<Rightarrow> Inr (map (\<lambda>kv. PStr (fst kv)) kvs)
      | _ \<Rightarrow> Inl TypeError)"

text \<open>
  \<^verbatim>\<open>[from_dict(SensorParams, sensor) for sensor in value]\<close>; the deserialiser
  \<^verbatim>\<open>from_dict\<close> belongs to the serde library and is a parameter.
\<close>

fun convert_sensors ::
  "(pyval \<Rightarrow> error + SensorParams) \<Rightarrow> pyval list \<Rightarrow> error + SensorParams list" where
  "convert_sensors from_dict [] = Inr []"
| "convert_sensors from_dict (x # xs) =
     (case from_dict x of
        Inl e \<Rightarrow> Inl e
      | Inr sensor \<Rightarrow>
          (case convert_sensors from_dict xs of
             Inl e \<Rightarrow> Inl e
           | Inr sensors \<Rightarrow> Inr (sensor # sensors)))"

text \<open>The loop over \<^verbatim>\<open>json_dict.items()\<close> that overrides the defaults.\<close>

fun merge_config ::
  "(pyval \<Rightarrow> error + SensorParams) \<Rightarrow> (string \<times> pyval) list \<Rightarrow> (string \<times> pyval) list
     \<Rightarrow> error + (string \<times> pyval) list" where
  "merge_config from_dict [] params = Inr params"
| "merge_config from_dict ((key, v) # items) params =
     (if map_of params key \<noteq> None then
        (if is_sensors_key key then
           (case py_iter v of
              Inl e \<Rightarrow> Inl e
            | Inr entries \<Rightarrow>
                (case convert_sensors from_dict entries of
                   Inl e \<Rightarrow> Inl e
                 | Inr sensors \<Rightarrow>
                     merge_config from_dict items
                       (AList.update key (PList (map PSensor sensors)) params)))
         else merge_config from_dict items (AList.update key v params))
      else merge_config from_dict items params)"

text \<open>
  The parameters after the configuration has been read. In the branch that read a file
  the log loop evaluates \<^verbatim>\<open>entry[1][0]\<close> for every list-valued parameter, which raises
  \<^verbatim>\<open>IndexError\<close> for an empty list.
\<close>

definition load_params ::
  "(pyval \<Rightarrow> error + SensorParams) \<Rightarrow> config_file \<Rightarrow> error + (string \<times> pyval) list" where
  "load_params from_dict cfg =
     (case cfg of
        NoConfigFile \<Rightarrow> Inr default_params
      | InvalidJson \<Rightarrow> Inl JSONDecodeError
      | JsonDocument doc \<Rightarrow>
          (case doc of
             PDict json_dict \<Rightarrow>
               (case merge_config from_dict json_dict default_params of
                  Inl e \<Rightarrow> Inl e
                | Inr params \<Rightarrow>
                    if list_ex (\<lambda>entry. snd entry = PList []) params then Inl IndexError
                    else Inr params)
           | _ \<Rightarrow> Inl AttributeError))"

text \<open>
  \<^verbatim>\<open>v < n\<close> for an integer \<open>n\<close>: defined for numbers and booleans only. Every
  comparison with NaN is false.
\<close>

definition float_less_int :: "pyfloat \<Rightarrow> int \<Rightarrow> bool" where
  "float_less_int x n =
     (case x of
        Finite r \<Rightarrow> r < real_of_int n
      | PosInf \<Rightarrow> False
      | NegInf \<Rightarrow> True
      | NaN \<Rightarrow> False)"

definition py_less_int :: "pyval \<Rightarrow> int \<Rightarrow> error + bool" where
  "py_less_int v n =
     (case v of
        PInt i \<Rightarrow> Inr (i < n)
      | PBool b \<Rightarrow> Inr ((if b then 1 else 0) < n)
      | PFloat x \<Rightarrow> Inr (float_less_int x n)
      | _ \<Rightarrow> Inl TypeError)"

text \<open>
  \<^verbatim>\<open>re.match("true", str(v), re.IGNORECASE)\<close>: among the values above only the boolean
  \<^verbatim>\<open>True\<close> and a string that starts with "true" in any capitalisation print so.
\<close>

definition starts_with_true :: "string \<Rightarrow> bool" where
  "starts_with_true cs =
     (case cs of
        c1 # c2 # c3 # c4 # _ \<Rightarrow>
          c1 \<in> set ''tT'' \<and> c2 \<in> set ''rR'' \<and> c3 \<in> set ''uU'' \<and> c4 \<in> set ''eE''
      | _ \<Rightarrow> False)"

definition matches_true :: "pyval \<Rightarrow> bool" where
  "matches_true v =
     (case v of PBool b \<Rightarrow> b | PStr cs \<Rightarrow> starts_with_true cs | _ \<Rightarrow> False)"

text \<open>
  The keyword arguments of the \<^verbatim>\<open>AcqParams(...)\<close> call at the end of \<^verbatim>\<open>parse_args\<close>.
  Values taken from the dictionary are passed on as they are.
\<close>

record AcqParams_args =
  arg_card_identifiers :: pyval
  arg_sync_identifier :: pyval
  arg_sensors_card_0 :: pyval
  arg_sensors_card_1 :: pyval
  arg_card_timeout :: pyval
  arg_trigger_level :: pyval
  arg_trigger_channel_no :: pyval
  arg_emission_on_channel_no :: pyval
  arg_sample_rate :: pyval
  arg_data_format :: FileFormat
  arg_acquisition_duration :: pyval
  arg_pre_acquisition_duration :: pyval
  arg_sensitivity_threshold :: pyval
  arg_with_crop :: bool
  arg_with_plot :: bool
  arg_with_channel_check :: bool

definition make_acq_params :: "(string \<times> pyval) list \<Rightarrow> AcqParams_args" where
  "make_acq_params d =
     \<lparr>arg_card_identifiers = dict_get d ''card_identifiers'',
      arg_sync_identifier = dict_get d ''sync_identifier'',
      arg_sensors_card_0 = dict_get d ''sensors_card_0'',
      arg_sensors_card_1 = dict_get d ''sensors_card_1'',
      arg_card_timeout = dict_get d ''card_timeout'',
      arg_trigger_level = dict_get d ''trigger_level'',
      arg_trigger_channel_no = dict_get d ''trigger_channel_no'',
      arg_emission_on_channel_no = dict_get d ''emission_on_channel_no'',
      arg_sample_rate = dict_get d ''sample_rate'',
      arg_data_format = (if dict_get d ''data_format'' = PStr ''CSV'' then CSV else PQT),
      arg_acquisition_duration = dict_get d ''acquisition_duration'',
      arg_pre_acquisition_duration = dict_get d ''pre_acquisition_duration'',
      arg_sensitivity_threshold = dict_get d ''sensitivity_threshold'',
      arg_with_crop = matches_true (dict_get d ''with_crop''),
      arg_with_plot = matches_true (dict_get d ''with_plot''),
      arg_with_channel_check = matches_true (dict_get d ''with_channel_check'')\<rparr>"

definition parse_args ::
  "(pyval \<Rightarrow> error + SensorParams) \<Rightarrow> config_file \<Rightarrow> error + AcqParams_args" where
  "parse_args from_dict cfg =
     (case load_params from_dict cfg of
        Inl e \<Rightarrow> Inl e
      | Inr params \<Rightarrow>
          (case py_less_int (dict_get params ''cur_version'') 2 of
             Inl e \<Rightarrow> Inl e
           | Inr outdated \<Rightarrow>
               if outdated then Inl OutdatedVersion else Inr (make_acq_params params)))"

text \<open>
  The \<^verbatim>\<open>cur_version\<close> a configuration supplies: the value of that key in a loaded JSON
  object (the last one, should the key be repeated), if there is one.
\<close>

definition supplied_version :: "config_file \<Rightarrow> pyval option" where
  "supplied_version cfg =
     (case cfg of
        JsonDocument (PDict json_dict) \<Rightarrow> map_of (rev json_dict) ''cur_version''
      | _ \<Rightarrow> None)"

definition version_at_least_2 :: "config_file \<Rightarrow> bool" where
  "version_at_least_2 cfg =
     (case supplied_version cfg of
        Some (PInt i) \<Rightarrow> 2 \<le> i
      | Some (PFloat (Finite r)) \<Rightarrow> 2 \<le> r
      | Some (PFloat PosInf) \<Rightarrow> True
      | _ \<Rightarrow> False)"

section \<open>Invariants and progress measure of the transition system\<close>

text \<open>
  The invariants of the transition system. They relate the coordinator's position to the
  state of the threads, the queue and the trace.
\<close>

definition all_not_started :: "run_state \<Rightarrow> bool" where
  "all_not_started s = list_all (\<lambda>t. t = NotStarted) (threads s)"

definition all_joined :: "hardware \<Rightarrow> run_state \<Rightarrow> bool" where
  "all_joined hw s =
     (\<forall>j < length (hw_cards hw). threads s ! j = Finished \<and> Joined j \<in> set (trace s))"

definition no_faults :: "hardware \<Rightarrow> bool" where
  "no_faults hw = (\<forall>j < length (hw_cards hw). hw_wait hw j = None)"

definition phase_inv :: "hardware \<Rightarrow> run_state \<Rightarrow> bool" where
  "phase_inv hw s =
     (length (threads s) = length (hw_cards hw) \<and>
      (case pc s of
         AtLaunch k \<Rightarrow>
           k \<le> length (hw_cards hw) \<and>
           (\<forall>j < length (hw_cards hw). (threads s ! j = NotStarted) = (k \<le> j))
       | AtJoin k \<Rightarrow>
           k \<le> length (hw_cards hw) \<and>
           (\<forall>j < length (hw_cards hw). threads s ! j \<noteq> NotStarted) \<and>
           (\<forall>j < k. threads s ! j = Finished \<and> Joined j \<in> set (trace s))
       | AtCheckQueue \<Rightarrow> all_joined hw s
       | AtAssemble \<Rightarrow> all_joined hw s \<and> no_faults hw
       | AtPostProcess \<Rightarrow> all_joined hw s \<and> no_faults hw \<and> data_arr s \<noteq> None
       | Returned \<Rightarrow> all_joined hw s \<and> no_faults hw
       | Raised e \<Rightarrow>
           if e = ThreadException then all_joined hw s
           else all_not_started s \<or> (all_joined hw s \<and> no_faults hw)
       | _ \<Rightarrow> all_not_started s))"

definition queue_inv :: "hardware \<Rightarrow> run_state \<Rightarrow> bool" where
  "queue_inv hw s =
     (case pc s of
        AtAssemble \<Rightarrow> True
      | AtPostProcess \<Rightarrow> True
      | Returned \<Rightarrow> True
      | Raised e \<Rightarrow> True
      | _ \<Rightarrow>
          (exc_queue s = []) =
          (\<forall>j < length (hw_cards hw). threads s ! j = Finished \<longrightarrow> hw_wait hw j = None))"

definition report_inv :: "hardware \<Rightarrow> run_state \<Rightarrow> bool" where
  "report_inv hw s =
     (uncaught s = [] \<and>
      (\<forall>j < length (hw_cards hw). \<forall>e.
         threads s ! j = Finished \<longrightarrow> hw_wait hw j = Some e \<longrightarrow> QueuePut j e \<in> set (trace s)) \<and>
      (Assembled \<in> set (trace s) \<or> data_arr s \<noteq> None \<longrightarrow> no_faults hw))"

text \<open>The events that record an exception leaving \<^verbatim>\<open>run_acquisition\<close>.\<close>

definition is_raise :: "event \<Rightarrow> bool" where
  "is_raise ev = (case ev of ErrorRaised e \<Rightarrow> True | _ \<Rightarrow> False)"

definition raise_inv :: "hardware \<Rightarrow> run_state \<Rightarrow> bool" where
  "raise_inv hw s =
     (length (filter is_raise (trace s)) = (case pc s of Raised e \<Rightarrow> 1 | _ \<Rightarrow> 0) \<and>
      (\<forall>e. pc s = Raised e \<longrightarrow> ErrorRaised e \<in> set (trace s)) \<and>
      (\<forall>j < length (hw_cards hw).
         precedes (Joined j) (ErrorRaised ThreadException) (trace s)))"

definition order_inv :: "run_state \<Rightarrow> bool" where
  "order_inv s =
     ((pc s = AtStart \<longrightarrow> SyncEnableReturned \<in> set (trace s)) \<and>
      (\<forall>k. pc s = AtLaunch k \<longrightarrow> StartReturned \<in> set (trace s)) \<and>
      precedes SyncEnableReturned StartIssued (trace s) \<and>
      (\<forall>k. precedes StartReturned (Launched k) (trace s)))"

text \<open>
  A bound on the steps that remain: it decreases with every step of an enabled actor.
\<close>

definition pc_rank :: "nat \<Rightarrow> pc \<Rightarrow> nat" where
  "pc_rank n c =
     (case c of
        AtConfigure \<Rightarrow> 9 + 4 * n
      | AtSetup i \<Rightarrow> 8 + 3 * n + (n - i)
      | AtSyncEnable \<Rightarrow> 7 + 3 * n
      | AtStart \<Rightarrow> 6 + 3 * n
      | AtLaunch i \<Rightarrow> 5 + n + 2 * (n - i)
      | AtJoin i \<Rightarrow> 4 + (n - i)
      | AtCheckQueue \<Rightarrow> 3
      | AtAssemble \<Rightarrow> 2
      | AtPostProcess \<Rightarrow> 1
      | Returned \<Rightarrow> 0
      | Raised e \<Rightarrow> 0)"

definition remaining :: "hardware \<Rightarrow> run_state \<Rightarrow> nat" where
  "remaining hw s =
     pc_rank (length (hw_cards hw)) (pc s) + length (filter (\<lambda>t. t \<noteq> Finished) (threads s))"

definition run_inv :: "hardware \<Rightarrow> run_state \<Rightarrow> bool" where
  "run_inv hw s =
     (phase_inv hw s \<and> queue_inv hw s \<and> report_inv hw s \<and> raise_inv hw s \<and> order_inv s)"

section \<open>Concrete inputs\<close>

text \<open>
  A parameter record close to the built-in defaults: two sensors per card, a trigger
  level of 2 V on channel 0, one second before and after an acquisition of 20 s, and a
  sample rate of 1 MHz.
\<close>

definition example_params :: AcqParams where
  "example_params =
     \<lparr>card_identifiers = [''/dev/spcm0'', ''/dev/spcm1''], sync_identifier = ''sync0'',
      sensors_card_0 = [default_sensor 0 0, default_sensor 0 1],
      sensors_card_1 = [default_sensor 1 0, default_sensor 1 1],
      card_timeout = 25, trigger_level = 2, trigger_channel_no = 0,
      emission_on_channel_no = 1, target_file_name = ''data.pqt'', sample_rate = 1,
      data_format = PQT, acquisition_duration = 20, post_acquisition_duration = 1,
      pre_acquisition_duration = 1, sensitivity_threshold = 1, cur_version = 2,
      with_crop = True, with_plot = False, with_channel_check = False\<rparr>"

text \<open>
  Six samples of two channels; the trigger channel (column 0) rises above the level 2
  between samples 3 and 4.
\<close>

definition step_waveform :: ndarray where
  "step_waveform = mk_ndarray 2 [[0, 0], [0, 0], [0, 0], [0, 0], [5, 0], [5, 0]]"

text \<open>Three samples of two channels whose trigger channel stays below the level.\<close>

definition flat_waveform :: ndarray where
  "flat_waveform = mk_ndarray 2 [[0, 1], [0, 2], [0, 3]]"

text \<open>Three samples of three channels that carry the same waveform.\<close>

definition equal_waveform :: ndarray where
  "equal_waveform = mk_ndarray 3 [[0, 0, 0], [1, 1, 1], [5, 5, 5]]"

text \<open>
  Plans for the card set-up: durations of 0.5 s + 1 s + 0.25 s at 1 MHz; durations of
  0.5 s + 32 s at 2 MHz (65 million samples); durations of 1 s + 40 s + 1 s at 2 MHz.
\<close>

definition fractional_plan :: AcqParams where
  "fractional_plan =
     example_params\<lparr>pre_acquisition_duration := 1 / 2, acquisition_duration := 1,
                     post_acquisition_duration := 1 / 4\<rparr>"

definition long_plan :: AcqParams where
  "long_plan =
     example_params\<lparr>pre_acquisition_duration := 1 / 2, acquisition_duration := 32,
                     post_acquisition_duration := 0, sample_rate := 2, card_timeout := 60\<rparr>"

definition oversized_plan :: AcqParams where
  "oversized_plan =
     example_params\<lparr>acquisition_duration := 40, sample_rate := 2, card_timeout := 60\<rparr>"

text \<open>
  A stack of two cards with two channels each. The wait of the second card's worker
  times out. The schedule lets the coordinator set up and start the cards, runs the two
  workers between the launches and the joins, and lets the coordinator finish.
\<close>

definition example_hardware :: hardware where
  "example_hardware =
     \<lparr>hw_channels = [(0, 0), (0, 1), (1, 0), (1, 1)], hw_cards = [True, True],
      hw_sync_enable = None, hw_start = None,
      hw_wait = (\<lambda>i. if i = 1 then Some SpcmTimeout else None),
      hw_buffers = [[[0, 0, 0, 0, 5, 5], [0, 0, 0, 0, 0, 0]], [[1, 1, 1, 1, 1, 1], [2, 2, 2, 2, 2, 2]]],
      hw_convert = (\<lambda>xs. xs)\<rparr>"

definition example_schedule :: "actor list" where
  "example_schedule =
     [Coordinator, Coordinator, Coordinator, Coordinator, Coordinator, Coordinator,
      Coordinator, Worker 0, Coordinator, Coordinator, Worker 1, Coordinator, Coordinator,
      Coordinator, Coordinator]"

definition example_plan :: "nat \<Rightarrow> card_plan" where
  "example_plan i =
     \<lparr>plan_timeout = Some 25, plan_num_samples = 22000000, plan_acq_duration = 22,
      plan_post_acq_duration = 21,
      plan_logged = [(INFO, CardSamples i 22000000 22 21)]\<rparr>"

section \<open>Properties of binary64 rounding\<close>

lemma powr_powi: "(2::real) powr (of_int k) = 2 powi k"
  by (simp add: powr_real_of_int power_int_def power_divide inverse_eq_divide)

lemma b64_exponent_bounds:
  assumes "x \<noteq> 0"
  shows "2 powi (b64_exponent x) \<le> \<bar>x\<bar>" and "\<bar>x\<bar> < 2 powi (b64_exponent x + 1)"
proof -
  have pos: "0 < \<bar>x\<bar>" using assms by simp
  have "2 powr (of_int (b64_exponent x)) \<le> \<bar>x\<bar>
        \<and> \<bar>x\<bar> < 2 powr (of_int (b64_exponent x + 1))"
    using floor_log_eq_powr_iff [of "\<bar>x\<bar>" 2 "b64_exponent x"] pos
    by (simp add: b64_exponent_def)
  then show "2 powi (b64_exponent x) \<le> \<bar>x\<bar>" and "\<bar>x\<bar> < 2 powi (b64_exponent x + 1)"
    by (simp_all only: powr_powi)
qed

lemma b64_exponent_eqI:
  assumes "2 powi e \<le> \<bar>x\<bar>" and "\<bar>x\<bar> < 2 powi (e + 1)"
  shows "b64_exponent x = e"
proof -
  have "(0::real) < 2 powi e" by simp
  with assms(1) have pos: "0 < \<bar>x\<bar>" by linarith
  have "2 powr (of_int e) \<le> \<bar>x\<bar> \<and> \<bar>x\<bar> < 2 powr (of_int (e + 1))"
    using assms by (simp only: powr_powi)
  then show ?thesis
    using floor_log_eq_powr_iff [of "\<bar>x\<bar>" 2 e] pos by (simp add: b64_exponent_def)
qed

lemma round_half_even_of_int [simp]: "round_half_even (of_int n) = n"
  by (simp add: round_half_even_def)

text \<open>Rounding a number whose binade is known.\<close>

lemma b64_round_eqI:
  assumes "2 powi e \<le> \<bar>x\<bar>" and "\<bar>x\<bar> < 2 powi (e + 1)"
  shows "b64_round x = of_int (round_half_even (x / 2 powi (e - 52))) * 2 powi (e - 52)"
proof -
  have "(0::real) < 2 powi e" by simp
  with assms(1) have "0 < \<bar>x\<bar>" by linarith
  then have "x \<noteq> 0" by simp
  then show ?thesis
    by (simp add: b64_round_def Let_def b64_exponent_eqI [OF assms])
qed

text \<open>A number with a significand of at most 53 bits is representable: rounding keeps it.\<close>

lemma b64_round_exact:
  assumes x: "x = of_int k * 2 powi j" and k: "\<bar>k\<bar> < 2 ^ 53"
  shows "b64_round x = x"
proof (cases "k = 0")
  case True
  then show ?thesis using x by (simp add: b64_round_def)
next
  case False
  then have nz: "x \<noteq> 0" using x by simp
  define e where "e = b64_exponent x"
  have lo: "2 powi e \<le> \<bar>x\<bar>" and hi: "\<bar>x\<bar> < 2 powi (e + 1)"
    unfolding e_def using b64_exponent_bounds [OF nz] by simp_all
  have ax: "\<bar>x\<bar> = of_int \<bar>k\<bar> * 2 powi j"
    using x by (simp add: abs_mult)
  have "of_int \<bar>k\<bar> < (2::real) ^ 53"
    using k by (metis of_int_less_numeral_power_cancel_iff)
  then have "\<bar>x\<bar> < 2 ^ 53 * 2 powi j"
    unfolding ax by simp
  also have "\<dots> = 2 powi (53 + j)"
    by (simp add: power_int_add)
  finally have less: "2 powi e < (2::real) powi (53 + j)" using lo by linarith
  have "e < 53 + j"
  proof (rule ccontr)
    assume "\<not> e < 53 + j"
    then have "53 + j \<le> e" by simp
    then have "(2::real) powi (53 + j) \<le> 2 powi e"
      by (rule power_int_increasing) simp
    with less show False by simp
  qed
  then have d: "0 \<le> j + 52 - e" by simp
  have "x / 2 powi (e - 52) = of_int k * 2 powi (j - (e - 52))"
    unfolding x by (simp add: power_int_diff)
  also have "2 powi (j - (e - 52)) = (2::real) ^ nat (j + 52 - e)"
    using d by (simp add: power_int_def algebra_simps)
  finally have q: "x / 2 powi (e - 52) = of_int (k * 2 ^ nat (j + 52 - e))"
    by simp
  have "b64_round x = of_int (round_half_even (x / 2 powi (e - 52))) * 2 powi (e - 52)"
    using nz by (simp add: b64_round_def Let_def e_def)
  also have "\<dots> = (x / 2 powi (e - 52)) * 2 powi (e - 52)"
    unfolding q round_half_even_of_int ..
  also have "\<dots> = x" by simp
  finally show ?thesis .
qed

lemma b64_round_of_int: "\<bar>k\<bar> < 2 ^ 53 \<Longrightarrow> b64_round (of_int k) = of_int k"
  using b64_round_exact [of "of_int k" k 0] by simp

lemma b64_round_numeral:
  "(numeral n :: int) < 2 ^ 53 \<Longrightarrow> b64_round (numeral n) = numeral n"
  using b64_round_of_int [of "numeral n"] by simp

lemma b64_round_small [simp]:
  "b64_round 0 = 0" "b64_round 1 = 1"
  using b64_round_of_int [of 0] b64_round_of_int [of 1] by simp_all

lemma b64_round_fractions:
  "b64_round (1 / 2) = 1 / 2" "b64_round (3 / 2) = 3 / 2" "b64_round (5 / 4) = 5 / 4"
  "b64_round (7 / 4) = 7 / 4" "b64_round (65 / 2) = 65 / 2"
  by (rule b64_round_exact [of _ 1 "- 1"], simp, simp,
      rule b64_round_exact [of _ 3 "- 1"], simp, simp,
      rule b64_round_exact [of _ 5 "- 2"], simp, simp,
      rule b64_round_exact [of _ 7 "- 2"], simp, simp,
      rule b64_round_exact [of _ 65 "- 1"], simp, simp)

lemmas float_eval =
  fadd_def fsub_def fmul_def fdiv_def float_of_int_def py_int_def b64_round_numeral
  b64_round_fractions

text \<open>
  Rounding is visible where the factors are not representable: three seconds at the
  binary64 number nearest to 0.29 MHz give 869999 samples, not 870000.
\<close>

lemma b64_round_29: "b64_round (29 / 100) = 5224175567749775 / 2 ^ 54"
  by (subst b64_round_eqI [of "- 2"]) (simp_all add: round_half_even_def)

lemma fmul_3_29: "fmul 3 (5224175567749775 / 2 ^ 54) = 7836263351624662 / 2 ^ 53"
  unfolding fmul_def
  by (subst b64_round_eqI [of "- 1"]) (simp_all add: round_half_even_def)

lemma fmul_87_million:
  "fmul (7836263351624662 / 2 ^ 53) 1000000 = 7473243095039999 / 2 ^ 33"
  unfolding fmul_def
  by (subst b64_round_eqI [of 19]) (simp_all add: round_half_even_def)

lemma rounded_product_truncates_below:
  "num_samples_requested
     (example_params\<lparr>pre_acquisition_duration := 1, acquisition_duration := 1,
                     post_acquisition_duration := 1, sample_rate := b64_round (29 / 100)\<rparr>)
   = 869999"
proof -
  have "float_of_int (py_int (fadd (fadd 1 1) 1)) = 3"
    by (simp add: fadd_def float_of_int_def b64_round_numeral py_int_def)
  then have "num_samples_requested
     (example_params\<lparr>pre_acquisition_duration := 1, acquisition_duration := 1,
                     post_acquisition_duration := 1, sample_rate := b64_round (29 / 100)\<rparr>)
     = py_int (fmul (fmul 3 (b64_round (29 / 100))) 1000000)"
    by (simp add: num_samples_requested_def)
  also have "\<dots> = py_int (7473243095039999 / 2 ^ 33)"
    unfolding b64_round_29 fmul_3_29 fmul_87_million ..
  also have "\<dots> = 869999"
    by (simp add: py_int_def)
  finally show ?thesis .
qed

section \<open>Properties of the crop engine\<close>

lemma example_waveforms_wf:
  "wf_ndarray step_waveform" "wf_ndarray flat_waveform" "wf_ndarray equal_waveform"
  by (simp_all add: wf_ndarray_def step_waveform_def flat_waveform_def equal_waveform_def
      mk_ndarray_def)

lemma upt_5: "[0..<5] = [0, 1, 2, 3, 4]"
  by (simp add: upt_rec)

lemma step_waveform_crossings: "crossings_of (column step_waveform 0) 2 = [3]"
  by (simp add: crossings_of_def column_def step_waveform_def mk_ndarray_def upt_5)

lemma step_waveform_indices: "crop_indices step_waveform example_params = Inr (2, 2)"
  by (simp add: crop_indices_def norm_index_def crossings_of_def column_def step_waveform_def
      mk_ndarray_def example_params_def py_int_def fmul_def upt_5)

lemma step_waveform_slice: "slice_rows step_waveform 2 2 = mk_ndarray 2 []"
  by (simp add: slice_rows_def py_slice_def slice_index_def step_waveform_def mk_ndarray_def)

text \<open>
  The upper slice bound never exceeds \<^verbatim>\<open>data.shape[1]\<close>, the number of channels,
  whatever the number of samples is.
\<close>

lemma crop_indices_end_le_channels:
  "crop_indices data p = Inr (s, e) \<Longrightarrow> e \<le> int (shape1 data)"
  by (auto simp: crop_indices_def Let_def split: option.splits if_splits)

text \<open>
  Claim C1 says that with at least one crossing the crop window is
  \<open>[max 0 (c0 - pre), min sample_count (c1 + post))\<close> and that
  \<open>0 \<le> start \<le> c0 \<le> c1 \<le> end \<le> sample_count\<close>. The source clips the upper bound to
  \<^verbatim>\<open>data.shape[1]\<close>, the channel count, although it slices along the sample axis. For
  the six-sample, two-channel waveform whose only crossing is at index 3, with one
  sample before and after the trigger, the claimed window is \<open>[2, 4)\<close>; the code computes
  the bounds \<open>(2, 2)\<close>, so the upper bound lies below the crossing, and returns an array
  without samples.
\<close>

theorem crop_data_end_clipped_to_channel_count:
  "wf_ndarray step_waveform \<and> shape0 step_waveform = 6 \<and> shape1 step_waveform = 2
   \<and> crossings_of (column step_waveform 0) 2 = [3]
   \<and> crop_indices step_waveform example_params = Inr (2, 2)
   \<and> crop_data step_waveform example_params = Inr (mk_ndarray 2 [])"
proof -
  have "crop_data step_waveform example_params = Inr (slice_rows step_waveform 2 2)"
    unfolding crop_data_def step_waveform_indices by (simp add: example_params_def)
  then show ?thesis
    using step_waveform_crossings step_waveform_indices step_waveform_slice
      example_waveforms_wf(1)
    by (simp add: step_waveform_def mk_ndarray_def)
qed

lemma upt_2: "[0..<2] = [0, 1]"
  by (simp add: upt_rec)

lemma flat_waveform_crossings: "crossings_of (column flat_waveform 0) 2 = []"
  by (simp add: crossings_of_def column_def flat_waveform_def mk_ndarray_def upt_2)

text \<open>
  Claim C3: with cropping enabled, a matrix whose trigger channel has no threshold
  crossing makes \<^verbatim>\<open>crop_data\<close> raise the no-trigger-crossings \<^verbatim>\<open>ValueError\<close>; no matrix
  is returned. The trigger channel is the column the configured index selects.
\<close>

theorem crop_data_no_crossings:
  assumes "with_crop p"
      and "norm_index (shape1 data) (trigger_channel_no p) = Some k"
      and "crossings_of (column data k) (trigger_level p) = []"
  shows "crop_data data p = Inl NoTriggerCrossings"
  using assms by (simp add: crop_data_def crop_indices_def)

theorem crop_data_no_crossings_witness:
  "wf_ndarray flat_waveform \<and> with_crop example_params
   \<and> norm_index (shape1 flat_waveform) (trigger_channel_no example_params) = Some 0
   \<and> crossings_of (column flat_waveform 0) (trigger_level example_params) = []
   \<and> crop_data flat_waveform example_params = Inl NoTriggerCrossings"
proof -
  have a: "with_crop example_params" by (simp add: example_params_def)
  have b: "norm_index (shape1 flat_waveform) (trigger_channel_no example_params) = Some 0"
    by (simp add: norm_index_def flat_waveform_def mk_ndarray_def example_params_def)
  have "trigger_level example_params = 2" by (simp add: example_params_def)
  then have c: "crossings_of (column flat_waveform 0) (trigger_level example_params) = []"
    using flat_waveform_crossings by simp
  show ?thesis using a b c example_waveforms_wf(2) crop_data_no_crossings [OF a b c] by simp
qed

text \<open>
  Claim C4: with cropping disabled \<^verbatim>\<open>crop_data\<close> returns its input unchanged, for every
  matrix and every parameter record.
\<close>

theorem crop_data_disabled_identity:
  "\<not> with_crop p \<Longrightarrow> crop_data data p = Inr data"
  by (simp add: crop_data_def)

theorem crop_data_disabled_identity_witness:
  "\<not> with_crop (example_params\<lparr>with_crop := False\<rparr>)
   \<and> crop_data step_waveform (example_params\<lparr>with_crop := False\<rparr>) = Inr step_waveform"
  using crop_data_disabled_identity [of "example_params\<lparr>with_crop := False\<rparr>" step_waveform]
  by simp

section \<open>Properties of the dissimilarity detector\<close>

lemma length_channel_zscores:
  "length (channel_zscores data) = (if shape1 data = 0 then 1 else shape1 data)"
  by (simp add: channel_zscores_def zscore_def Let_def squareform_pdist_def transpose_rows_def)

lemma norm_index_less: "norm_index n i = Some k \<Longrightarrow> k < n"
  by (auto simp: norm_index_def split: if_splits)






text \<open>
  Claim C5: whenever the configured trigger and emission channel indices are accepted
  as indices of the channel axis, \<^verbatim>\<open>detect_dissimilar_channels\<close> returns one flag per
  channel with the value \<open>-1\<close> ("excluded") at both positions, whatever the samples and
  the sensitivity threshold are; \<open>-1\<close> is not the value \<open>1\<close> of a dissimilar channel.
\<close>

theorem trigger_and_emission_excluded:
  assumes "norm_index (shape1 data) (trigger_channel_no p) = Some t"
      and "norm_index (shape1 data) (emission_on_channel_no p) = Some e"
  shows "\<exists>flags. detect_dissimilar_channels data p = Inr flags \<and> length flags = shape1 data
           \<and> flags ! t = - 1 \<and> flags ! e = - 1"
proof -
  have tl: "t < shape1 data" and el: "e < shape1 data"
    using assms by (auto dest: norm_index_less)
  then have pos: "shape1 data \<noteq> 0" by simp
  show ?thesis
    using assms pos tl el
    by (simp add: detect_dissimilar_channels_def Let_def set_item_def length_channel_zscores
        nth_list_update)
qed

theorem trigger_and_emission_excluded_witness:
  "wf_ndarray step_waveform
   \<and> norm_index (shape1 step_waveform) (trigger_channel_no example_params) = Some 0
   \<and> norm_index (shape1 step_waveform) (emission_on_channel_no example_params) = Some 1
   \<and> (\<exists>flags. detect_dissimilar_channels step_waveform example_params = Inr flags
         \<and> length flags = shape1 step_waveform \<and> flags ! 0 = - 1 \<and> flags ! 1 = - 1)"
proof -
  have a: "norm_index (shape1 step_waveform) (trigger_channel_no example_params) = Some 0"
    by (simp add: norm_index_def step_waveform_def mk_ndarray_def example_params_def)
  have b: "norm_index (shape1 step_waveform) (emission_on_channel_no example_params) = Some 1"
    by (simp add: norm_index_def step_waveform_def mk_ndarray_def example_params_def)
  show ?thesis
    using a b example_waveforms_wf(1) trigger_and_emission_excluded [OF a b] by simp
qed




section \<open>Properties of the card set-up\<close>

lemma fractional_plan_samples: "num_samples_requested fractional_plan = 1000000"
  by (simp add: num_samples_requested_def fractional_plan_def example_params_def float_eval)

lemma fractional_plan_setup:
  "card_setup 0 True fractional_plan =
     Inr \<lparr>plan_timeout = Some 25, plan_num_samples = 1000000,
          plan_acq_duration = 7 / 4, plan_post_acq_duration = 5 / 4,
          plan_logged = [(INFO, CardSamples 0 1000000 (7 / 4) (5 / 4))]\<rparr>"
  unfolding card_setup_def fractional_plan_samples
  by (simp add: MAX_SAMPLE_NUMBER_def fractional_plan_def example_params_def Let_def
      float_eval)

text \<open>
  Claim C2 says that the effective sample count of a device is
  \<open>round ((pre + main + post) \<times> sample_rate)\<close>. The source truncates the summed duration
  to whole seconds before it multiplies: for durations of 0.5 s, 1 s and 0.25 s at 1 MHz
  it computes 1000000 samples, where the rounded product is 1750000 (and 2 with the rate
  taken as a plain factor), and then programs the card with the untruncated duration of
  1.75 s. Every float operation at this input is exact.
\<close>

theorem sample_count_truncates_summed_duration:
  "num_samples_requested fractional_plan = 1000000
   \<and> round ((pre_acquisition_duration fractional_plan + acquisition_duration fractional_plan
              + post_acquisition_duration fractional_plan)
             * (sample_rate fractional_plan * 1000000)) = 1750000
   \<and> round ((pre_acquisition_duration fractional_plan + acquisition_duration fractional_plan
              + post_acquisition_duration fractional_plan) * sample_rate fractional_plan) = 2
   \<and> card_setup 0 True fractional_plan =
       Inr \<lparr>plan_timeout = Some 25, plan_num_samples = 1000000,
            plan_acq_duration = 7 / 4, plan_post_acq_duration = 5 / 4,
            plan_logged = [(INFO, CardSamples 0 1000000 (7 / 4) (5 / 4))]\<rparr>"
proof -
  have "round ((1 / 2 + 1 + 1 / 4) * ((1::real) * 1000000)) = 1750000"
    by (simp add: round_def)
  moreover have "round ((1 / 2 + 1 + 1 / 4) * (1::real)) = 2"
    by (simp add: round_def)
  ultimately show ?thesis
    unfolding fractional_plan_samples fractional_plan_setup
    by (simp add: fractional_plan_def example_params_def)
qed


lemma long_plan_samples: "num_samples_requested long_plan = 64000000"
  by (simp add: num_samples_requested_def long_plan_def example_params_def float_eval)

lemma long_plan_setup:
  "card_setup 0 True long_plan =
     Inr \<lparr>plan_timeout = Some 60, plan_num_samples = 64000000,
          plan_acq_duration = 65 / 2, plan_post_acq_duration = 32,
          plan_logged = [(INFO, CardSamples 0 64000000 (65 / 2) 32)]\<rparr>"
  unfolding card_setup_def long_plan_samples
  by (simp add: MAX_SAMPLE_NUMBER_def long_plan_def example_params_def Let_def float_eval)

text \<open>
  Claim C7 says that every plan whose summed duration times the sample rate exceeds the
  ceiling is clamped, so that the adjusted duration times the rate is at most the
  ceiling. The guard of the source tests the sample count it computed from the truncated
  duration: a plan of 0.5 s + 32 s at 2 MHz asks for 65 million samples, the computed
  count is 64 million, the plan is not clamped, the card is programmed with 32.5 s and
  no warning is logged. Every float operation at this input is exact.
\<close>

theorem unclamped_plan_exceeds_ceiling:
  "(pre_acquisition_duration long_plan + acquisition_duration long_plan
      + post_acquisition_duration long_plan) * (sample_rate long_plan * 1000000)
     > real_of_int MAX_SAMPLE_NUMBER
   \<and> num_samples_requested long_plan = 64000000
   \<and> card_setup 0 True long_plan =
       Inr \<lparr>plan_timeout = Some 60, plan_num_samples = 64000000,
            plan_acq_duration = 65 / 2, plan_post_acq_duration = 32,
            plan_logged = [(INFO, CardSamples 0 64000000 (65 / 2) 32)]\<rparr>
   \<and> \<not> (65 / 2) * (sample_rate long_plan * 1000000) \<le> real_of_int MAX_SAMPLE_NUMBER"
  unfolding long_plan_setup long_plan_samples
  by (simp add: MAX_SAMPLE_NUMBER_def long_plan_def example_params_def)


lemma oversized_plan_samples: "num_samples_requested oversized_plan = 84000000"
  by (simp add: num_samples_requested_def oversized_plan_def example_params_def float_eval)

text \<open>
  Where the computed count exceeds the ceiling the clamp is applied: 1 s + 40 s + 1 s at
  2 MHz is cut to 32 s, of which 31 s follow the trigger, with two warnings.
\<close>

lemma oversized_plan_setup:
  "card_setup 0 True oversized_plan =
     Inr \<lparr>plan_timeout = Some 60, plan_num_samples = 64000000,
          plan_acq_duration = 32, plan_post_acq_duration = 31,
          plan_logged =
            [(WARNING, SamplesExceedMaximum 84000000), (WARNING, AcquisitionAdjusted 32 31),
             (INFO, CardSamples 0 64000000 32 31)]\<rparr>"
  unfolding card_setup_def oversized_plan_samples
  by (simp add: MAX_SAMPLE_NUMBER_def oversized_plan_def example_params_def Let_def float_eval)


section \<open>Properties of the configuration loader\<close>

lemma merge_config_keys:
  "merge_config from_dict items params = Inr params' \<Longrightarrow> map fst params' = map fst params"
proof (induction items arbitrary: params)
  case Nil
  then show ?case by simp
next
  case (Cons kv items)
  obtain key v where kv: "kv = (key, v)" by (cases kv)
  show ?case
  proof (cases "map_of params key")
    case None
    with Cons kv show ?thesis by simp
  next
    case (Some old)
    then have mem: "key \<in> fst ` set params" by (metis map_of_eq_None_iff option.distinct(1))
    have upd: "map fst (AList.update key w params) = map fst params" for w
      using mem by (simp add: update_keys)
    from Cons.prems kv Some Cons.IH upd show ?thesis
      by (auto split: if_splits sum.splits)
  qed
qed

lemma is_sensors_key_cur_version: "\<not> is_sensors_key ''cur_version''"
  by (simp add: is_sensors_key_def)

lemma merge_config_cur_version:
  assumes "map_of params ''cur_version'' = Some v0"
      and "merge_config from_dict items params = Inr params'"
  shows "map_of params' ''cur_version''
         = (case map_of (rev items) ''cur_version'' of Some v \<Rightarrow> Some v | None \<Rightarrow> Some v0)"
  using assms
proof (induction items arbitrary: params v0)
  case Nil
  then show ?case by simp
next
  case (Cons kv items)
  obtain key v where kv: "kv = (key, v)" by (cases kv)
  have app: "map_of (rev (kv # items)) ''cur_version''
        = (case map_of (rev items) ''cur_version'' of Some x \<Rightarrow> Some x
           | None \<Rightarrow> if key = ''cur_version'' then Some v else None)"
    by (simp add: kv map_add_def split: option.splits)
  show ?case
  proof (cases "key = ''cur_version''")
    case True
    with Cons.prems kv have m: "merge_config from_dict items (AList.update key v params) = Inr params'"
      by (simp add: is_sensors_key_cur_version)
    have "map_of (AList.update key v params) ''cur_version'' = Some v"
      using True by (simp add: update_conv')
    from Cons.IH [OF this m] show ?thesis
      unfolding app using True by (simp split: option.splits)
  next
    case False
    have keep: "map_of (AList.update key w params) ''cur_version'' = Some v0" for w
      using False Cons.prems(1) by (simp add: update_conv')
    have "map_of params' ''cur_version''
        = (case map_of (rev items) ''cur_version'' of Some v \<Rightarrow> Some v | None \<Rightarrow> Some v0)"
      using Cons.prems kv Cons.IH keep
      by (auto split: if_splits sum.splits)
    then show ?thesis unfolding app using False by (simp split: option.splits)
  qed
qed

lemma default_cur_version: "map_of default_params ''cur_version'' = Some (PInt 1)"
  by (simp add: default_params_def)

text \<open>The values for which \<^verbatim>\<open>v < 2\<close> is true or a type error: all but numbers of at least 2 and NaN.\<close>

lemma py_less_int_outdated:
  assumes "case v of
             PInt i \<Rightarrow> \<not> 2 \<le> i
           | PFloat x \<Rightarrow> (case x of Finite r \<Rightarrow> \<not> 2 \<le> r | PosInf \<Rightarrow> False
                          | NegInf \<Rightarrow> True | NaN \<Rightarrow> False)
           | _ \<Rightarrow> True"
  shows "py_less_int v 2 = Inr True \<or> py_less_int v 2 = Inl TypeError"
proof (cases v)
  case (PFloat x)
  with assms show ?thesis
    by (cases x) (auto simp: py_less_int_def float_less_int_def)
qed (use assms in \<open>auto simp: py_less_int_def\<close>)

lemma nan_version_params:
  "load_params from_dict (JsonDocument (PDict [(''cur_version'', PFloat NaN)]))
   = Inr (AList.update ''cur_version'' (PFloat NaN) default_params)"
  by (simp add: load_params_def is_sensors_key_cur_version default_cur_version)
    (simp add: default_params_def)

text \<open>
  Claim C10 says that \<^verbatim>\<open>parse_args\<close> raises whenever the configuration does not supply a
  \<^verbatim>\<open>cur_version\<close> of at least 2. A configuration file with \<^verbatim>\<open>"cur_version": NaN\<close>, which
  \<^verbatim>\<open>json.load\<close> accepts, does not supply such a version, yet \<^verbatim>\<open>NaN < 2\<close> is false and
  \<^verbatim>\<open>parse_args\<close> returns the parameter object.
\<close>

theorem parse_args_accepts_nan_version:
  "\<not> version_at_least_2 (JsonDocument (PDict [(''cur_version'', PFloat NaN)]))
   \<and> parse_args (\<lambda>v. Inl SerdeError) (JsonDocument (PDict [(''cur_version'', PFloat NaN)]))
       = Inr (make_acq_params (AList.update ''cur_version'' (PFloat NaN) default_params))"
proof -
  have "dict_get (AList.update ''cur_version'' (PFloat NaN) default_params) ''cur_version''
        = PFloat NaN"
    by (simp add: dict_get_def update_conv')
  then show ?thesis
    by (simp add: parse_args_def nan_version_params py_less_int_def float_less_int_def
        version_at_least_2_def supplied_version_def)
qed

text \<open>
  Claim C10, amended: whenever the configuration supplies neither a \<^verbatim>\<open>cur_version\<close> that
  is a number of at least 2 nor the float NaN as \<^verbatim>\<open>cur_version\<close>, \<^verbatim>\<open>parse_args\<close> raises and
  returns no parameter object. This includes the run without a configuration file,
  which fails with the outdated-version \<^verbatim>\<open>ValueError\<close> because the built-in default
  version is 1.
\<close>

theorem parse_args_outdated_version_fails:
  assumes "\<not> version_at_least_2 cfg"
      and "supplied_version cfg \<noteq> Some (PFloat NaN)"
  shows "\<exists>e. parse_args from_dict cfg = Inl e \<and> (cfg = NoConfigFile \<longrightarrow> e = OutdatedVersion)"
proof (cases cfg)
  case NoConfigFile
  then show ?thesis
    by (simp add: parse_args_def load_params_def dict_get_def default_cur_version py_less_int_def)
next
  case InvalidJson
  then show ?thesis by (simp add: parse_args_def load_params_def)
next
  case (JsonDocument doc)
  show ?thesis
  proof (cases "load_params from_dict cfg")
    case (Inl e)
    then show ?thesis using JsonDocument by (simp add: parse_args_def)
  next
    case (Inr params)
    with JsonDocument obtain json_dict where doc: "doc = PDict json_dict"
      and m: "merge_config from_dict json_dict default_params = Inr params"
      by (auto simp: load_params_def split: pyval.splits sum.splits if_splits)
    have cv: "map_of params ''cur_version''
        = (case map_of (rev json_dict) ''cur_version'' of Some v \<Rightarrow> Some v | None \<Rightarrow> Some (PInt 1))"
      by (rule merge_config_cur_version [OF default_cur_version m])
    have sv: "supplied_version cfg = map_of (rev json_dict) ''cur_version''"
      using JsonDocument doc by (simp add: supplied_version_def)
    have "case dict_get params ''cur_version'' of
            PInt i \<Rightarrow> \<not> 2 \<le> i
          | PFloat x \<Rightarrow> (case x of Finite r \<Rightarrow> \<not> 2 \<le> r | PosInf \<Rightarrow> False
                         | NegInf \<Rightarrow> True | NaN \<Rightarrow> False)
          | _ \<Rightarrow> True"
      using assms unfolding version_at_least_2_def sv dict_get_def cv
      by (auto split: option.splits pyval.splits pyfloat.splits)
    from py_less_int_outdated [OF this] show ?thesis
      using Inr JsonDocument by (auto simp: parse_args_def)
  qed
qed

theorem parse_args_outdated_version_fails_witness:
  "\<not> version_at_least_2 NoConfigFile
   \<and> supplied_version NoConfigFile \<noteq> Some (PFloat NaN)
   \<and> parse_args (\<lambda>v. Inl SerdeError) NoConfigFile = Inl OutdatedVersion
   \<and> \<not> version_at_least_2
         (JsonDocument (PDict [(''sample_rate'', PFloat (Finite 4)), (''cur_version'', PInt 1)]))
   \<and> supplied_version
         (JsonDocument (PDict [(''sample_rate'', PFloat (Finite 4)), (''cur_version'', PInt 1)]))
       \<noteq> Some (PFloat NaN)
   \<and> (\<exists>e. parse_args (\<lambda>v. Inl SerdeError)
             (JsonDocument
                (PDict [(''sample_rate'', PFloat (Finite 4)), (''cur_version'', PInt 1)]))
           = Inl e)"
proof -
  let ?doc =
    "JsonDocument (PDict [(''sample_rate'', PFloat (Finite 4)), (''cur_version'', PInt 1)])"
  have a: "\<not> version_at_least_2 NoConfigFile"
    and a': "supplied_version NoConfigFile \<noteq> Some (PFloat NaN)"
    by (simp_all add: version_at_least_2_def supplied_version_def)
  have b: "\<not> version_at_least_2 ?doc"
    and b': "supplied_version ?doc \<noteq> Some (PFloat NaN)"
    by (simp_all add: version_at_least_2_def supplied_version_def)
  show ?thesis
    using a a' b b' parse_args_outdated_version_fails [OF a a', of "\<lambda>v. Inl SerdeError"]
      parse_args_outdated_version_fails [OF b b', of "\<lambda>v. Inl SerdeError"]
    by auto
qed

section \<open>Properties of the transition system\<close>

lemma exec_snoc: "exec hw p (sched @ [a]) s = step hw p a (exec hw p sched s)"
  by (simp add: exec_def)

lemma exec_Cons: "exec hw p (a # sched) s = exec hw p sched (step hw p a s)"
  by (simp add: exec_def)

lemma exec_Nil: "exec hw p [] s = s"
  by (simp add: exec_def)

lemma all_not_started_nth:
  "all_not_started s \<Longrightarrow> j < length (threads s) \<Longrightarrow> threads s ! j = NotStarted"
  by (simp add: all_not_started_def list_all_length)

lemma configure_channels_error: "configure_channels c p = Inl e \<Longrightarrow> e \<noteq> ThreadException"
  by (auto simp: configure_channels_def split: if_splits)

lemma card_setup_error: "card_setup i b p = Inl e \<Longrightarrow> e \<noteq> ThreadException"
  by (auto simp: card_setup_def Let_def split: if_splits)

lemma set_item_error: "set_item xs k v = Inl e \<Longrightarrow> e = IndexError"
  by (auto simp: set_item_def split: option.splits)

lemma detect_error: "detect_dissimilar_channels d p = Inl e \<Longrightarrow> e \<noteq> ThreadException"
  by (auto simp: detect_dissimilar_channels_def Let_def split: sum.splits dest: set_item_error)

lemma crop_data_error: "crop_data d p = Inl e \<Longrightarrow> e \<noteq> ThreadException"
  by (auto simp: crop_data_def crop_indices_def Let_def split: if_splits sum.splits option.splits)

lemma init_phase_inv: "phase_inv hw (init_state hw)"
  by (simp add: phase_inv_def init_state_def all_not_started_def list_all_length)

lemma init_queue_inv: "queue_inv hw (init_state hw)"
  by (simp add: queue_inv_def init_state_def)

lemma worker_step_inv:
  assumes "phase_inv hw s" and "queue_inv hw s"
  shows "phase_inv hw (worker_step hw i s) \<and> queue_inv hw (worker_step hw i s)"
proof (cases "i < length (hw_cards hw) \<and> i < length (threads s) \<and> threads s ! i = Running")
  case False
  have "worker_step hw i s = s"
    unfolding worker_step_def by (rule if_not_P [OF False])
  then show ?thesis using assms by simp
next
  case True
  then have i: "i < length (hw_cards hw)" "i < length (threads s)" "threads s ! i = Running"
    by simp_all
  have len: "length (threads s) = length (hw_cards hw)"
    using assms(1) by (simp add: phase_inv_def)
  have nj: "\<not> all_joined hw s" using i by (auto simp: all_joined_def)
  have ns: "\<not> all_not_started s" using i by (auto dest: all_not_started_nth)
  show ?thesis
  proof (cases "hw_wait hw i")
    case None
    then have w: "worker_step hw i s
        = s\<lparr>threads := (threads s)[i := Finished], trace := trace s @ [WorkerReturned i]\<rparr>"
      using True by (simp add: worker_step_def CardThread_run_def)
    have "phase_inv hw (worker_step hw i s)"
      using assms(1) i nj ns unfolding w
      by (cases "pc s") (auto simp: phase_inv_def nth_list_update split: if_splits)
    moreover have "queue_inv hw (worker_step hw i s)"
      using assms(2) i None len unfolding w
      by (cases "pc s") (auto simp: queue_inv_def nth_list_update)
    ultimately show ?thesis by simp
  next
    case (Some e)
    then have w: "worker_step hw i s
        = s\<lparr>threads := (threads s)[i := Finished], exc_queue := exc_queue s @ [e],
             trace := trace s @ [QueuePut i e, WorkerReturned i]\<rparr>"
      using True by (simp add: worker_step_def CardThread_run_def)
    have "phase_inv hw (worker_step hw i s)"
      using assms(1) i nj ns unfolding w
      by (cases "pc s") (auto simp: phase_inv_def nth_list_update split: if_splits)
    moreover have "queue_inv hw (worker_step hw i s)"
      using assms(2) i Some len unfolding w
      by (cases "pc s") (auto simp: queue_inv_def nth_list_update)
    ultimately show ?thesis by simp
  qed
qed

lemma all_not_started_upd [simp]:
  "all_not_started (s\<lparr>trace := tr\<rparr>) = all_not_started s"
  "all_not_started (s\<lparr>pc := c\<rparr>) = all_not_started s"
  "all_not_started (s\<lparr>gated_transfers := g\<rparr>) = all_not_started s"
  by (simp_all add: all_not_started_def)

lemma coordinator_step_inv:
  assumes ph: "phase_inv hw s" and qu: "queue_inv hw s"
  shows "phase_inv hw (coordinator_step hw p s) \<and> queue_inv hw (coordinator_step hw p s)"
proof (cases "pc s")
  case AtConfigure
  then show ?thesis
    using ph qu
    by (auto simp: coordinator_step_def phase_inv_def queue_inv_def all_joined_def
        no_faults_def
        raise_error_def
        split: sum.splits dest: configure_channels_error)
next
  case (AtSetup k)
  then show ?thesis
    using ph qu
    by (auto simp: coordinator_step_def phase_inv_def queue_inv_def all_joined_def
        no_faults_def
        raise_error_def
        split: sum.splits dest: card_setup_error)
next
  case AtSyncEnable
  then show ?thesis
    using ph qu
    by (auto simp: coordinator_step_def phase_inv_def queue_inv_def all_joined_def
        no_faults_def
        raise_error_def
        split: option.splits)
next
  case AtStart
  then show ?thesis
    using ph qu
    by (auto simp: coordinator_step_def phase_inv_def queue_inv_def all_joined_def
        no_faults_def
        raise_error_def
        all_not_started_def list_all_length split: option.splits)
next
  case (AtLaunch k)
  then show ?thesis
    using ph qu
    by (auto simp: coordinator_step_def phase_inv_def queue_inv_def all_joined_def
        no_faults_def nth_list_update)
next
  case (AtJoin k)
  then show ?thesis
    using ph qu
    by (auto simp: coordinator_step_def phase_inv_def queue_inv_def all_joined_def
        no_faults_def less_Suc_eq)
next
  case AtCheckQueue
  then show ?thesis
    using ph qu
    by (auto simp: coordinator_step_def phase_inv_def queue_inv_def all_joined_def
        no_faults_def
        raise_error_def
)
next
  case AtAssemble
  then show ?thesis
    using ph qu
    by (auto simp: coordinator_step_def phase_inv_def queue_inv_def all_joined_def
        no_faults_def)
next
  case AtPostProcess
  then show ?thesis
    using ph qu
    by (auto simp: coordinator_step_def phase_inv_def queue_inv_def all_joined_def
        no_faults_def
        raise_error_def
        split: sum.splits option.splits dest: crop_data_error detect_error)
next
  case Returned
  then show ?thesis using ph qu by (simp add: coordinator_step_def)
next
  case (Raised e)
  then show ?thesis using ph qu by (simp add: coordinator_step_def)
qed

lemma precedes_from_append:
  "precedes_from seen a b (xs @ ys)
   = (precedes_from seen a b xs \<and> precedes_from (seen \<or> a \<in> set xs) a b ys)"
proof (induction xs arbitrary: seen)
  case Nil
  show ?case by simp
next
  case (Cons x xs)
  have eq: "(seen \<or> x = a \<or> a \<in> set xs) = (seen \<or> a = x \<or> a \<in> set xs)"
    by auto
  show ?case by (simp add: Cons.IH eq)
qed

lemma precedes_snoc:
  "precedes a b (xs @ [x]) = (precedes a b xs \<and> (x = b \<longrightarrow> a \<in> set xs))"
  by (simp add: precedes_def precedes_from_append)

lemma precedes_snoc2:
  "precedes a b (xs @ [x, y])
   = (precedes a b xs \<and> (x = b \<longrightarrow> a \<in> set xs) \<and> (y = b \<longrightarrow> a \<in> set xs \<or> x = a))"
  by (auto simp: precedes_def precedes_from_append)

lemma init_report_inv: "report_inv hw (init_state hw)"
  by (simp add: report_inv_def init_state_def)

lemma init_raise_inv: "raise_inv hw (init_state hw)"
  by (simp add: raise_inv_def init_state_def precedes_def)

lemma init_order_inv: "order_inv (init_state hw)"
  by (simp add: order_inv_def init_state_def precedes_def)

lemma worker_step_cases:
  "worker_step hw i s = s
   \<or> (i < length (hw_cards hw) \<and> i < length (threads s) \<and> threads s ! i = Running
       \<and> hw_wait hw i = None
       \<and> worker_step hw i s
           = s\<lparr>threads := (threads s)[i := Finished], trace := trace s @ [WorkerReturned i]\<rparr>)
   \<or> (\<exists>e. i < length (hw_cards hw) \<and> i < length (threads s) \<and> threads s ! i = Running
       \<and> hw_wait hw i = Some e
       \<and> worker_step hw i s
           = s\<lparr>threads := (threads s)[i := Finished], exc_queue := exc_queue s @ [e],
                trace := trace s @ [QueuePut i e, WorkerReturned i]\<rparr>)"
  by (cases "hw_wait hw i") (auto simp: worker_step_def CardThread_run_def)

lemma worker_step_report_inv:
  assumes "report_inv hw s"
  shows "report_inv hw (worker_step hw i s)"
  using worker_step_cases [of hw i s] assms
  by (auto simp: report_inv_def nth_list_update split: if_splits)

lemma worker_step_raise_inv:
  assumes "raise_inv hw s"
  shows "raise_inv hw (worker_step hw i s)"
  using worker_step_cases [of hw i s] assms
  by (auto simp: raise_inv_def is_raise_def precedes_snoc precedes_snoc2)

lemma worker_step_order_inv:
  assumes "order_inv s"
  shows "order_inv (worker_step hw i s)"
  using worker_step_cases [of hw i s] assms
  by (auto simp: order_inv_def precedes_snoc precedes_snoc2)

lemma coordinator_step_order_inv:
  assumes "order_inv s"
  shows "order_inv (coordinator_step hw p s)"
  using assms
  by (cases "pc s")
    (auto simp: coordinator_step_def order_inv_def raise_error_def precedes_snoc precedes_snoc2
      split: sum.splits option.splits)

lemma coordinator_step_report_inv:
  assumes "phase_inv hw s" and "report_inv hw s"
  shows "report_inv hw (coordinator_step hw p s)"
  using assms
  by (cases "pc s")
    (auto simp: coordinator_step_def report_inv_def phase_inv_def raise_error_def
      nth_list_update split: sum.splits option.splits if_splits)

lemma coordinator_step_raise_inv:
  assumes "phase_inv hw s" and "raise_inv hw s"
  shows "raise_inv hw (coordinator_step hw p s)"
proof (cases "pc s")
  case AtCheckQueue
  then show ?thesis
    using assms
    by (auto simp: coordinator_step_def raise_inv_def phase_inv_def all_joined_def
        raise_error_def is_raise_def precedes_snoc precedes_snoc2)
next
  case AtPostProcess
  then show ?thesis
    using assms
    by (auto simp: coordinator_step_def raise_inv_def raise_error_def is_raise_def
        precedes_snoc split: sum.splits option.splits dest: crop_data_error detect_error)
next
  case AtConfigure
  then show ?thesis
    using assms
    by (auto simp: coordinator_step_def raise_inv_def raise_error_def is_raise_def
        precedes_snoc split: sum.splits dest: configure_channels_error)
next
  case (AtSetup k)
  then show ?thesis
    using assms
    by (auto simp: coordinator_step_def raise_inv_def raise_error_def is_raise_def
        precedes_snoc split: sum.splits dest: card_setup_error)
qed (use assms in \<open>auto simp: coordinator_step_def raise_inv_def raise_error_def is_raise_def
        precedes_snoc precedes_snoc2 split: option.splits\<close>)

lemma step_run_inv: "run_inv hw s \<Longrightarrow> run_inv hw (step hw p a s)"
  unfolding run_inv_def
  by (cases a)
    (simp_all add: step_def coordinator_step_inv worker_step_inv coordinator_step_report_inv
      worker_step_report_inv coordinator_step_raise_inv worker_step_raise_inv
      coordinator_step_order_inv worker_step_order_inv)

lemma exec_run_inv: "run_inv hw s \<Longrightarrow> run_inv hw (exec hw p sched s)"
  by (induction sched arbitrary: s) (simp_all add: exec_Nil exec_Cons step_run_inv)

lemma run_acquisition_inv: "run_inv hw (run_acquisition hw p sched)"
  unfolding run_acquisition_def
  by (rule exec_run_inv)
    (simp add: run_inv_def init_phase_inv init_queue_inv init_report_inv init_raise_inv
      init_order_inv)

lemma filter_update_le:
  "length (filter P (xs[i := x])) \<le> Suc (length (filter P xs))"
proof (induction xs arbitrary: i)
  case Nil
  show ?case by simp
next
  case (Cons y ys)
  show ?case
  proof (cases i)
    case 0
    then show ?thesis by simp
  next
    case (Suc k)
    with Cons.IH [of k] show ?thesis by simp
  qed
qed

lemma filter_update_less:
  "i < length xs \<Longrightarrow> P (xs ! i) \<Longrightarrow> \<not> P x
   \<Longrightarrow> length (filter P (xs[i := x])) < length (filter P xs)"
proof (induction xs arbitrary: i)
  case Nil
  then show ?case by simp
next
  case (Cons y ys)
  show ?case
  proof (cases i)
    case 0
    with Cons.prems show ?thesis by simp
  next
    case (Suc k)
    with Cons.prems Cons.IH [of k] show ?thesis by simp
  qed
qed

lemma worker_step_decreases:
  assumes "enabled hw s (Worker i)"
  shows "remaining hw (worker_step hw i s) < remaining hw s"
proof -
  from assms have i: "i < length (hw_cards hw)" "i < length (threads s)" "threads s ! i = Running"
    by (simp_all add: enabled_def)
  have less: "length (filter (\<lambda>t. t \<noteq> Finished) ((threads s)[i := Finished]))
              < length (filter (\<lambda>t. t \<noteq> Finished) (threads s))"
    by (rule filter_update_less) (use i in simp_all)
  show ?thesis
  proof (cases "hw_wait hw i")
    case None
    with i have "worker_step hw i s
       = s\<lparr>threads := (threads s)[i := Finished], trace := trace s @ [WorkerReturned i]\<rparr>"
      by (simp add: worker_step_def CardThread_run_def)
    with less show ?thesis by (simp add: remaining_def)
  next
    case (Some e)
    with i have "worker_step hw i s
       = s\<lparr>threads := (threads s)[i := Finished], exc_queue := exc_queue s @ [e],
            trace := trace s @ [QueuePut i e, WorkerReturned i]\<rparr>"
      by (simp add: worker_step_def CardThread_run_def)
    with less show ?thesis by (simp add: remaining_def)
  qed
qed

lemma coordinator_step_decreases:
  assumes "enabled hw s Coordinator"
  shows "remaining hw (coordinator_step hw p s) < remaining hw s"
proof (cases "pc s")
  case (AtLaunch k)
  show ?thesis
  proof (cases "k < length (hw_cards hw)")
    case True
    have "length (filter (\<lambda>t. t \<noteq> Finished) ((threads s)[k := Running]))
          \<le> Suc (length (filter (\<lambda>t. t \<noteq> Finished) (threads s)))"
      by (rule filter_update_le)
    with True AtLaunch show ?thesis
      by (simp add: coordinator_step_def remaining_def pc_rank_def)
  next
    case False
    with AtLaunch show ?thesis
      by (simp add: coordinator_step_def remaining_def pc_rank_def)
  qed
qed (use assms in \<open>auto simp: coordinator_step_def remaining_def pc_rank_def enabled_def
        raise_error_def split: sum.splits option.splits\<close>)

lemma step_decreases:
  "enabled hw s a \<Longrightarrow> remaining hw (step hw p a s) < remaining hw s"
  by (cases a) (simp_all add: step_def coordinator_step_decreases worker_step_decreases)

lemma not_enabled_step: "\<not> enabled hw s a \<Longrightarrow> step hw p a s = s"
proof (cases a)
  case Coordinator
  assume "\<not> enabled hw s a"
  with Coordinator show ?thesis
    by (cases "pc s")
      (auto simp: step_def enabled_def coordinator_step_def split: option.splits)
next
  case (Worker i)
  assume "\<not> enabled hw s a"
  with Worker have "\<not> (i < length (hw_cards hw) \<and> i < length (threads s) \<and> threads s ! i = Running)"
    by (simp add: enabled_def)
  then have "worker_step hw i s = s"
    unfolding worker_step_def by (rule if_not_P)
  with Worker show ?thesis by (simp add: step_def)
qed

lemma can_terminate: "\<exists>sched. terminated hw (exec hw p sched s)"
proof (induction "remaining hw s" arbitrary: s rule: less_induct)
  case less
  show ?case
  proof (cases "terminated hw s")
    case True
    then have "terminated hw (exec hw p [] s)" by (simp add: exec_Nil)
    then show ?thesis ..
  next
    case False
    then obtain a where "enabled hw s a"
      by (auto simp: terminated_def list_ex_iff)
    then have "remaining hw (step hw p a s) < remaining hw s" by (rule step_decreases)
    from less [OF this] obtain sched where "terminated hw (exec hw p sched (step hw p a s))" ..
    then have "terminated hw (exec hw p (a # sched) s)" by (simp add: exec_Cons)
    then show ?thesis ..
  qed
qed

lemma terminated_iff: "terminated hw s = (\<forall>a. \<not> enabled hw s a)"
proof
  assume t: "terminated hw s"
  show "\<forall>a. \<not> enabled hw s a"
  proof
    fix a
    show "\<not> enabled hw s a"
    proof (cases a)
      case Coordinator
      with t show ?thesis by (simp add: terminated_def all_actors_def)
    next
      case (Worker i)
      show ?thesis
      proof (cases "i < length (hw_cards hw)")
        case True
        with t Worker show ?thesis
          by (auto simp: terminated_def all_actors_def list_ex_iff)
      next
        case False
        with Worker show ?thesis by (simp add: enabled_def)
      qed
    qed
  qed
next
  assume "\<forall>a. \<not> enabled hw s a"
  then show "terminated hw s" by (simp add: terminated_def list_ex_iff)
qed

lemma example_configure:
  "configure_channels (hw_channels example_hardware) example_params = Inr ()"
  by (simp add: configure_channels_def example_hardware_def example_params_def default_sensor_def)

lemma example_samples: "num_samples_requested example_params = 22000000"
  by (simp add: num_samples_requested_def example_params_def float_eval)

lemma example_setup: "card_setup i True example_params = Inr (example_plan i)"
  unfolding card_setup_def example_samples
  by (simp add: example_params_def MAX_SAMPLE_NUMBER_def Let_def example_plan_def float_eval)

lemma example_cards: "hw_cards example_hardware = [True, True]"
  "hw_sync_enable example_hardware = None" "hw_start example_hardware = None"
  "hw_wait example_hardware 0 = None" "hw_wait example_hardware (Suc 0) = Some SpcmTimeout"
  by (simp_all add: example_hardware_def)

lemma prefix1:
  "exec example_hardware example_params
     [Coordinator, Coordinator, Coordinator, Coordinator, Coordinator, Coordinator]
     (init_state example_hardware)
   = \<lparr>pc = AtLaunch 0, threads = [NotStarted, NotStarted], exc_queue = [], uncaught = [],
      gated_transfers = [example_plan 0, example_plan 1], data_arr = None,
      dissimilar_channels = None,
      trace = [SyncEnableCalled, SyncEnableReturned, StartIssued, StartReturned]\<rparr>"
  by (simp add: exec_def init_state_def step_def coordinator_step_def example_configure
      example_setup example_cards)

lemma exec_append: "exec hw p (xs @ ys) s = exec hw p ys (exec hw p xs s)"
  by (simp add: exec_def)

lemma prefix2:
  "exec example_hardware example_params
     [Coordinator, Worker 0, Coordinator, Coordinator, Worker 1]
     \<lparr>pc = AtLaunch 0, threads = [NotStarted, NotStarted], exc_queue = [], uncaught = [],
      gated_transfers = [example_plan 0, example_plan 1], data_arr = None,
      dissimilar_channels = None,
      trace = [SyncEnableCalled, SyncEnableReturned, StartIssued, StartReturned]\<rparr>
   = \<lparr>pc = AtJoin 0, threads = [Finished, Finished], exc_queue = [SpcmTimeout], uncaught = [],
      gated_transfers = [example_plan 0, example_plan 1], data_arr = None,
      dissimilar_channels = None,
      trace = [SyncEnableCalled, SyncEnableReturned, StartIssued, StartReturned, Launched 0,
               WorkerReturned 0, Launched 1, QueuePut 1 SpcmTimeout, WorkerReturned 1]\<rparr>"
  by (simp add: exec_def step_def coordinator_step_def worker_step_def CardThread_run_def
      example_cards)

lemma prefix3:
  "exec example_hardware example_params
     [Coordinator, Coordinator, Coordinator, Coordinator]
     \<lparr>pc = AtJoin 0, threads = [Finished, Finished], exc_queue = [SpcmTimeout], uncaught = [],
      gated_transfers = [example_plan 0, example_plan 1], data_arr = None,
      dissimilar_channels = None,
      trace = [SyncEnableCalled, SyncEnableReturned, StartIssued, StartReturned, Launched 0,
               WorkerReturned 0, Launched 1, QueuePut 1 SpcmTimeout, WorkerReturned 1]\<rparr>
   = \<lparr>pc = Raised ThreadException, threads = [Finished, Finished], exc_queue = [],
      uncaught = [], gated_transfers = [example_plan 0, example_plan 1], data_arr = None,
      dissimilar_channels = None,
      trace = [SyncEnableCalled, SyncEnableReturned, StartIssued, StartReturned, Launched 0,
               WorkerReturned 0, Launched 1, QueuePut 1 SpcmTimeout, WorkerReturned 1,
               Joined 0, Joined 1, QueueDrained, ErrorRaised ThreadException]\<rparr>"
  by (simp add: exec_def step_def coordinator_step_def raise_error_def example_cards)

lemma example_run:
  "run_acquisition example_hardware example_params example_schedule
   = \<lparr>pc = Raised ThreadException, threads = [Finished, Finished], exc_queue = [],
      uncaught = [], gated_transfers = [example_plan 0, example_plan 1], data_arr = None,
      dissimilar_channels = None,
      trace = [SyncEnableCalled, SyncEnableReturned, StartIssued, StartReturned, Launched 0,
               WorkerReturned 0, Launched 1, QueuePut 1 SpcmTimeout, WorkerReturned 1,
               Joined 0, Joined 1, QueueDrained, ErrorRaised ThreadException]\<rparr>"
proof -
  have sch: "example_schedule
      = [Coordinator, Coordinator, Coordinator, Coordinator, Coordinator, Coordinator]
        @ [Coordinator, Worker 0, Coordinator, Coordinator, Worker 1]
        @ [Coordinator, Coordinator, Coordinator, Coordinator]"
    by (simp add: example_schedule_def)
  show ?thesis
    unfolding run_acquisition_def sch by (simp only: exec_append prefix1 prefix2 prefix3)
qed

text \<open>
  Claim C9: in every run, under every interleaving of the coordinator and the workers,
  the return of the synchronisation enable precedes the issue of the start command, and
  the return of the start command precedes the launch of every worker.
\<close>

theorem sync_enable_then_start_then_launch:
  "precedes SyncEnableReturned StartIssued (trace (run_acquisition hw p sched))
   \<and> (\<forall>k. precedes StartReturned (Launched k) (trace (run_acquisition hw p sched)))"
  using run_acquisition_inv [of hw p sched] by (simp add: run_inv_def order_inv_def)

theorem sync_enable_then_start_then_launch_witness:
  "trace (run_acquisition example_hardware example_params example_schedule)
     = [SyncEnableCalled, SyncEnableReturned, StartIssued, StartReturned, Launched 0,
        WorkerReturned 0, Launched 1, QueuePut 1 SpcmTimeout, WorkerReturned 1,
        Joined 0, Joined 1, QueueDrained, ErrorRaised ThreadException]
   \<and> precedes SyncEnableReturned StartIssued
         (trace (run_acquisition example_hardware example_params example_schedule))
   \<and> precedes StartReturned (Launched 0)
         (trace (run_acquisition example_hardware example_params example_schedule))
   \<and> precedes StartReturned (Launched 1)
         (trace (run_acquisition example_hardware example_params example_schedule))"
proof -
  have tr: "trace (run_acquisition example_hardware example_params example_schedule)
     = [SyncEnableCalled, SyncEnableReturned, StartIssued, StartReturned, Launched 0,
        WorkerReturned 0, Launched 1, QueuePut 1 SpcmTimeout, WorkerReturned 1,
        Joined 0, Joined 1, QueueDrained, ErrorRaised ThreadException]"
    by (simp add: example_run)
  from sync_enable_then_start_then_launch [of example_hardware example_params example_schedule]
  have "precedes SyncEnableReturned StartIssued
         (trace (run_acquisition example_hardware example_params example_schedule))"
    and "precedes StartReturned (Launched 0)
         (trace (run_acquisition example_hardware example_params example_schedule))"
    and "precedes StartReturned (Launched 1)
         (trace (run_acquisition example_hardware example_params example_schedule))"
    by blast+
  with tr show ?thesis by blast
qed

text \<open>
  Claim C8: take any run, under any interleaving, in which the worker of card \<open>i\<close> has
  finished and its wait or read raised \<open>e\<close>. No exception has left a worker thread; the
  fault was put on the shared queue; no assembly was attempted and no waveform exists;
  the aggregated failure is raised only after every worker has been joined, and at most
  one exception is raised in the run. The run can always be completed, and every
  completed run has ended with the aggregated failure.
\<close>

theorem worker_fault_reported_and_aggregated:
  assumes "i < length (hw_cards hw)"
      and "hw_wait hw i = Some e"
      and "threads (run_acquisition hw p sched) ! i = Finished"
  shows "uncaught (run_acquisition hw p sched) = []
         \<and> QueuePut i e \<in> set (trace (run_acquisition hw p sched))
         \<and> Assembled \<notin> set (trace (run_acquisition hw p sched))
         \<and> data_arr (run_acquisition hw p sched) = None
         \<and> pc (run_acquisition hw p sched) \<noteq> Returned
         \<and> (\<forall>j < length (hw_cards hw).
               precedes (Joined j) (ErrorRaised ThreadException)
                 (trace (run_acquisition hw p sched)))
         \<and> length (filter is_raise (trace (run_acquisition hw p sched))) \<le> 1
         \<and> (terminated hw (run_acquisition hw p sched)
              \<longrightarrow> pc (run_acquisition hw p sched) = Raised ThreadException
                  \<and> ErrorRaised ThreadException \<in> set (trace (run_acquisition hw p sched)))
         \<and> (\<exists>sched'. terminated hw (exec hw p sched' (run_acquisition hw p sched)))"
proof -
  let ?s = "run_acquisition hw p sched"
  have inv: "run_inv hw ?s" by (rule run_acquisition_inv)
  then have ph: "phase_inv hw ?s" and rp: "report_inv hw ?s" and ra: "raise_inv hw ?s"
    by (simp_all add: run_inv_def)
  have nf: "\<not> no_faults hw" using assms(1,2) by (auto simp: no_faults_def)
  have len: "length (threads ?s) = length (hw_cards hw)" using ph by (simp add: phase_inv_def)
  have ns: "\<not> all_not_started ?s"
    using assms(1,3) len by (auto dest: all_not_started_nth)
  have a: "uncaught ?s = []" using rp by (simp add: report_inv_def)
  have b: "QueuePut i e \<in> set (trace ?s)" using rp assms by (simp add: report_inv_def)
  have c: "Assembled \<notin> set (trace ?s)" "data_arr ?s = None"
    using rp nf by (auto simp: report_inv_def)
  have d: "pc ?s \<noteq> Returned" using ph nf by (auto simp: phase_inv_def)
  have f: "\<forall>j < length (hw_cards hw).
             precedes (Joined j) (ErrorRaised ThreadException) (trace ?s)"
    using ra by (simp add: raise_inv_def)
  have g: "length (filter is_raise (trace ?s)) \<le> 1"
    using ra by (cases "pc ?s") (simp_all add: raise_inv_def)
  have h: "pc ?s = Raised ThreadException \<and> ErrorRaised ThreadException \<in> set (trace ?s)"
    if t: "terminated hw ?s"
  proof -
    from t have ne: "\<not> enabled hw ?s a" for a by (simp add: terminated_iff)
    have "pc ?s = Raised ThreadException"
    proof (cases "pc ?s")
      case (AtJoin k)
      with ne [of Coordinator] have k: "k < length (hw_cards hw)" "threads ?s ! k \<noteq> Finished"
        by (auto simp: enabled_def)
      with ph AtJoin have "threads ?s ! k = Running"
        by (cases "threads ?s ! k") (auto simp: phase_inv_def)
      with k len have "enabled hw ?s (Worker k)" by (simp add: enabled_def)
      with ne show ?thesis by blast
    next
      case (Raised x)
      with ph nf ns show ?thesis by (auto simp: phase_inv_def split: if_splits)
    qed (use ne [of Coordinator] ph nf in \<open>auto simp: enabled_def phase_inv_def\<close>)
    with ra show ?thesis by (simp add: raise_inv_def)
  qed
  have k: "\<exists>sched'. terminated hw (exec hw p sched' ?s)" by (rule can_terminate)
  from a b c d f g h k show ?thesis by blast
qed

theorem worker_fault_reported_and_aggregated_witness:
  "1 < length (hw_cards example_hardware)
   \<and> hw_wait example_hardware 1 = Some SpcmTimeout
   \<and> threads (run_acquisition example_hardware example_params example_schedule) ! 1 = Finished
   \<and> terminated example_hardware
       (run_acquisition example_hardware example_params example_schedule)
   \<and> pc (run_acquisition example_hardware example_params example_schedule)
       = Raised ThreadException
   \<and> uncaught (run_acquisition example_hardware example_params example_schedule) = []
   \<and> QueuePut 1 SpcmTimeout
       \<in> set (trace (run_acquisition example_hardware example_params example_schedule))
   \<and> Assembled
       \<notin> set (trace (run_acquisition example_hardware example_params example_schedule))
   \<and> data_arr (run_acquisition example_hardware example_params example_schedule) = None"
proof -
  let ?s = "run_acquisition example_hardware example_params example_schedule"
  have a: "1 < length (hw_cards example_hardware)" by (simp add: example_hardware_def)
  have b: "hw_wait example_hardware 1 = Some SpcmTimeout" by (simp add: example_hardware_def)
  have c: "threads ?s ! 1 = Finished" by (simp add: example_run)
  have t: "terminated example_hardware ?s"
    by (simp add: example_run terminated_def all_actors_def enabled_def example_cards)
  from worker_fault_reported_and_aggregated [OF a b c] t a b c show ?thesis by blast
qed

end
